theory Spec2Isabelle
  imports
    Main
    "HOL-Library.Sublist"
    "HOL-Library.AList"
    "HOL-Library.Char_ord"
    "HOL-Library.List_Lexorder"
    "HOL-Library.Multiset"
begin

section \<open>FOCAL MCP server: workspace store, protocol dispatcher, change notifier\<close>

text \<open>
  A shallow embedding of \<^verbatim>\<open>focal_mcp_server/workspace.py\<close>,
  \<^verbatim>\<open>focal_mcp_server/mcp.py\<close> and \<^verbatim>\<open>focal_mcp_server/notifications.py\<close>.

  Conventions of the model.
  \<^item> A Python \<^verbatim>\<open>str\<close> is the list of the bytes of its UTF-8 encoding (type \<open>string\<close>).
    A file name that is not UTF-8 reaches Python with each offending byte \<open>b\<close> turned into
    the lone surrogate U+DC00+\<open>b\<close> (\<^verbatim>\<open>surrogateescape\<close>); here such a string is the byte
    list itself, so \<^verbatim>\<open>encode("utf-8")\<close> raises exactly on the byte lists that are not
    well-formed UTF-8. Python orders strings by code points: \<open>code_points\<close> gives them.
  \<^item> The host is POSIX. An absolute path is the list of its segments below \<^verbatim>\<open>/\<close>.
  \<^item> The disk is a table of what the kernel answers at each absolute path: a directory, a
    regular file, or a refusal (permission denied on the way, a name that is too long).
    Symbolic links do not show in these answers, which follow them; they show in
    \<^verbatim>\<open>Path.resolve()\<close>, which is a parameter of the model (\<open>realpath\<close>) and may return
    any path or raise.
  \<^item> An exception is a value of type \<open>error\<close>; a function that can raise returns
    \<open>error + 'a\<close>, and a function that touches the disk takes the disk and returns it.
  \<^item> SHA-256 and the ISO-8601 rendering of a timestamp are library functions; they are
    parameters of the model too (record \<open>lib\<close>). Rendering a timestamp can raise.
\<close>

subsection \<open>Python strings\<close>

definition startswith :: "string \<Rightarrow> string \<Rightarrow> bool" where
  "startswith s pre = prefix pre s"

text \<open>\<^verbatim>\<open>s.replace(old, new)\<close>: every non-overlapping occurrence, leftmost first.\<close>

function replace :: "string \<Rightarrow> string \<Rightarrow> string \<Rightarrow> string" where
  "replace old new s =
     (if old = [] then new @ concat (map (\<lambda>c. c # new) s)
      else if s = [] then []
      else if prefix old s then new @ replace old new (drop (length old) s)
      else hd s # replace old new (tl s))"
  by pat_completeness auto
termination
  by (relation "measure (\<lambda>(old, new, s). length s)") auto

declare replace.simps [simp del]

text \<open>\<^verbatim>\<open>s.replace(old, new, 1)\<close>: the first occurrence only.\<close>

fun replace_first :: "string \<Rightarrow> string \<Rightarrow> string \<Rightarrow> string" where
  "replace_first old new [] = (if old = [] then new else [])"
| "replace_first old new (c # cs) =
     (if prefix old (c # cs) then new @ drop (length old) (c # cs)
      else c # replace_first old new cs)"

text \<open>\<^verbatim>\<open>sub in s\<close>.\<close>

fun occurs :: "string \<Rightarrow> string \<Rightarrow> bool" where
  "occurs sub [] = (sub = [])"
| "occurs sub (c # cs) = (prefix sub (c # cs) \<or> occurs sub cs)"

text \<open>\<^verbatim>\<open>s.lstrip(chars)\<close>.\<close>

definition lstrip_chars :: "string \<Rightarrow> string \<Rightarrow> string" where
  "lstrip_chars chars s = dropWhile (\<lambda>c. c \<in> set chars) s"

text \<open>\<^verbatim>\<open>sep.join(parts)\<close>.\<close>

fun join :: "string \<Rightarrow> string list \<Rightarrow> string" where
  "join sep [] = []"
| "join sep [x] = x"
| "join sep (x # y # ys) = x @ sep @ join sep (y # ys)"

text \<open>\<^verbatim>\<open>s.split(sep)\<close> for a one-character separator.\<close>

fun split_sep :: "char \<Rightarrow> string \<Rightarrow> string list" where
  "split_sep sep [] = [[]]"
| "split_sep sep (c # cs) =
     (if c = sep then [] # split_sep sep cs
      else (case split_sep sep cs of
              [] \<Rightarrow> [[c]]
            | w # ws \<Rightarrow> (c # w) # ws))"

text \<open>
  The characters \<^verbatim>\<open>str.strip()\<close> removes, each as its UTF-8 byte sequence: the ASCII
  white space \<^verbatim>\<open>\t \n \v \f \r\<close>, the separators U+001C to U+001F, the space, U+0085,
  U+00A0, U+1680, U+2000 to U+200A, U+2028, U+2029, U+202F, U+205F and U+3000.
\<close>

definition whitespace :: "string list" where
  "whitespace =
     map (\<lambda>b. [char_of (b::nat)]) [0x09, 0x0A, 0x0B, 0x0C, 0x0D, 0x1C, 0x1D, 0x1E, 0x1F, 0x20] @
     map (map (char_of :: nat \<Rightarrow> char))
       ([[0xC2, 0x85], [0xC2, 0xA0], [0xE1, 0x9A, 0x80]] @
        map (\<lambda>b. [0xE2, 0x80, b]) [0x80, 0x81, 0x82, 0x83, 0x84, 0x85, 0x86, 0x87, 0x88, 0x89, 0x8A] @
        [[0xE2, 0x80, 0xA8], [0xE2, 0x80, 0xA9], [0xE2, 0x80, 0xAF], [0xE2, 0x81, 0x9F],
         [0xE3, 0x80, 0x80]])"

fun lstrip_with :: "string list \<Rightarrow> string \<Rightarrow> string" where
  "lstrip_with ws [] = []"
| "lstrip_with ws (c # cs) =
     (if [c] \<in> set ws then lstrip_with ws cs
      else if take 2 (c # cs) \<in> set ws then lstrip_with ws (drop 1 cs)
      else if take 3 (c # cs) \<in> set ws then lstrip_with ws (drop 2 cs)
      else c # cs)"

definition lstrip :: "string \<Rightarrow> string" where
  "lstrip s = lstrip_with whitespace s"

definition rstrip :: "string \<Rightarrow> string" where
  "rstrip s = rev (lstrip_with (map rev whitespace) (rev s))"

text \<open>\<^verbatim>\<open>s.strip()\<close>.\<close>

definition strip :: "string \<Rightarrow> string" where
  "strip s = rstrip (lstrip s)"

subsection \<open>Exceptions\<close>

text \<open>
  The error numbers of the system calls the server makes. Python raises an \<^verbatim>\<open>OSError\<close>
  as the subclass its number selects: \<^verbatim>\<open>FileNotFoundError\<close> for \<open>ENOENT\<close>,
  \<^verbatim>\<open>PermissionError\<close> for \<open>EACCES\<close>, and so on.
\<close>

datatype errno = ENOENT | ENOTDIR | EBADF | ELOOP | EACCES | EEXIST | EISDIR | ENAMETOOLONG | EIO

datatype error =
    JsonRpcError int string
  | ValueError string
  | AttributeError
  | UnicodeDecodeError
  | UnicodeEncodeError
  | RuntimeError string
  | OverflowError
  | OSError errno
  | WebSocketDisconnect

abbreviation FileNotFoundError :: error where
  "FileNotFoundError \<equiv> OSError ENOENT"

abbreviation NotADirectoryError :: error where
  "NotADirectoryError \<equiv> OSError ENOTDIR"

abbreviation PermissionError :: error where
  "PermissionError \<equiv> OSError EACCES"

abbreviation FileExistsError :: error where
  "FileExistsError \<equiv> OSError EEXIST"

abbreviation IsADirectoryError :: error where
  "IsADirectoryError \<equiv> OSError EISDIR"

text \<open>
  \<^verbatim>\<open>pathlib._ignore_error\<close>: the errors that \<^verbatim>\<open>exists\<close>, \<^verbatim>\<open>is_file\<close> and \<^verbatim>\<open>is_dir\<close>
  read as "nothing there".
\<close>

definition ignore_error :: "errno \<Rightarrow> bool" where
  "ignore_error n = (n = ENOENT \<or> n = ENOTDIR \<or> n = EBADF \<or> n = ELOOP)"

subsection \<open>Bytes and text\<close>

text \<open>
  \<^verbatim>\<open>bytes.decode("utf-8")\<close> in strict mode accepts exactly the well-formed sequences
  of RFC 3629: no overlong form, no surrogate, nothing above U+10FFFF.
\<close>

definition byte_in :: "nat \<Rightarrow> nat \<Rightarrow> char \<Rightarrow> bool" where
  "byte_in lo hi c = (lo \<le> (of_char c :: nat) \<and> (of_char c :: nat) \<le> hi)"

definition cont_byte :: "char \<Rightarrow> bool" where
  "cont_byte c = byte_in 0x80 0xBF c"

fun utf8_valid :: "string \<Rightarrow> bool" where
  "utf8_valid [] = True"
| "utf8_valid (b # bs) =
     (if byte_in 0x00 0x7F b then utf8_valid bs
      else if byte_in 0xC2 0xDF b then
        (case bs of c1 # r \<Rightarrow> cont_byte c1 \<and> utf8_valid r | _ \<Rightarrow> False)
      else if byte_in 0xE0 0xEF b then
        (case bs of
           c1 # c2 # r \<Rightarrow>
             (if byte_in 0xE0 0xE0 b then byte_in 0xA0 0xBF c1
              else if byte_in 0xED 0xED b then byte_in 0x80 0x9F c1
              else cont_byte c1)
             \<and> cont_byte c2 \<and> utf8_valid r
         | _ \<Rightarrow> False)
      else if byte_in 0xF0 0xF4 b then
        (case bs of
           c1 # c2 # c3 # r \<Rightarrow>
             (if byte_in 0xF0 0xF0 b then byte_in 0x90 0xBF c1
              else if byte_in 0xF4 0xF4 b then byte_in 0x80 0x8F c1
              else cont_byte c1)
             \<and> cont_byte c2 \<and> cont_byte c3 \<and> utf8_valid r
         | _ \<Rightarrow> False)
      else False)"

text \<open>
  \<^verbatim>\<open>s.encode("utf-8")\<close>: the bytes of the string, unless the string holds a lone
  surrogate, that is, unless the byte list is not well-formed.
\<close>

definition encode_utf8 :: "string \<Rightarrow> error + string" where
  "encode_utf8 s = (if utf8_valid s then Inr s else Inl UnicodeEncodeError)"

text \<open>
  The code points of a string, which Python compares when it sorts. A well-formed
  sequence at the head gives its code point and the number of continuation bytes it
  takes; any other byte \<open>b\<close> stands for U+DC00+\<open>b\<close>.
\<close>

fun utf8_head :: "string \<Rightarrow> (nat \<times> nat) option" where
  "utf8_head [] = None"
| "utf8_head (b # bs) =
     (if byte_in 0x00 0x7F b then Some (of_char b, 0)
      else if byte_in 0xC2 0xDF b then
        (case bs of
           c1 # r \<Rightarrow>
             if cont_byte c1 then Some ((of_char b - 0xC0) * 64 + (of_char c1 - 0x80), 1)
             else None
         | _ \<Rightarrow> None)
      else if byte_in 0xE0 0xEF b then
        (case bs of
           c1 # c2 # r \<Rightarrow>
             if (if byte_in 0xE0 0xE0 b then byte_in 0xA0 0xBF c1
                 else if byte_in 0xED 0xED b then byte_in 0x80 0x9F c1
                 else cont_byte c1)
                \<and> cont_byte c2
             then Some (((of_char b - 0xE0) * 64 + (of_char c1 - 0x80)) * 64
                        + (of_char c2 - 0x80), 2)
             else None
         | _ \<Rightarrow> None)
      else if byte_in 0xF0 0xF4 b then
        (case bs of
           c1 # c2 # c3 # r \<Rightarrow>
             if (if byte_in 0xF0 0xF0 b then byte_in 0x90 0xBF c1
                 else if byte_in 0xF4 0xF4 b then byte_in 0x80 0x8F c1
                 else cont_byte c1)
                \<and> cont_byte c2 \<and> cont_byte c3
             then Some ((((of_char b - 0xF0) * 64 + (of_char c1 - 0x80)) * 64
                         + (of_char c2 - 0x80)) * 64 + (of_char c3 - 0x80), 3)
             else None
         | _ \<Rightarrow> None)
      else None)"

fun code_points :: "string \<Rightarrow> nat list" where
  "code_points [] = []"
| "code_points (b # bs) =
     (case utf8_head (b # bs) of
        Some (cp, n) \<Rightarrow> cp # code_points (drop n bs)
      | None \<Rightarrow> (0xDC00 + of_char b) # code_points bs)"

text \<open>
  Text mode with \<^verbatim>\<open>newline=None\<close> (what \<^verbatim>\<open>Path.read_text\<close> opens): on input
  \<^verbatim>\<open>\r\n\<close> and a lone \<^verbatim>\<open>\r\<close> become \<^verbatim>\<open>\n\<close>.
\<close>

fun universal_newlines :: "string \<Rightarrow> string" where
  "universal_newlines [] = []"
| "universal_newlines [c] = (if c = CHR 0x0D then [CHR 0x0A] else [c])"
| "universal_newlines (c # d # cs) =
     (if c = CHR 0x0D \<and> d = CHR 0x0A then CHR 0x0A # universal_newlines cs
      else if c = CHR 0x0D then CHR 0x0A # universal_newlines (d # cs)
      else c # universal_newlines (d # cs))"

subsection \<open>Paths (\<^verbatim>\<open>pathlib\<close> on POSIX)\<close>

type_synonym path = "string list"

text \<open>The segments of a path string: empty segments and \<^verbatim>\<open>.\<close> are dropped.\<close>

definition parse_parts :: "string \<Rightarrow> string list" where
  "parse_parts s = filter (\<lambda>seg. seg \<noteq> [] \<and> seg \<noteq> ''.'') (split_sep (CHR ''/'') s)"

text \<open>\<^verbatim>\<open>root / s\<close>: an absolute right operand replaces the left one.\<close>

definition joinpath :: "path \<Rightarrow> string \<Rightarrow> path" where
  "joinpath p s = (if startswith s ''/'' then parse_parts s else p @ parse_parts s)"

text \<open>\<^verbatim>\<open>Path.parents\<close>: the proper ancestors, nearest first, \<^verbatim>\<open>/\<close> last.\<close>

definition parents :: "path \<Rightarrow> path list" where
  "parents p = map (\<lambda>n. take n p) (rev [0..<length p])"

text \<open>\<^verbatim>\<open>str(path.relative_to(root))\<close> for a path below \<open>root\<close>.\<close>

definition relative_to :: "path \<Rightarrow> path \<Rightarrow> string" where
  "relative_to p root = join ''/'' (drop (length root) p)"

text \<open>A path with a NUL character: Python refuses to hand it to the kernel.\<close>

definition has_nul :: "path \<Rightarrow> bool" where
  "has_nul p = list_ex (\<lambda>seg. CHR 0x00 \<in> set seg) p"

subsection \<open>Prompt names (\<^verbatim>\<open>MCPHandler._prompt_name_for_path\<close>, \<^verbatim>\<open>_path_for_prompt_name\<close>)\<close>

definition prompt_name_for_path :: "string \<Rightarrow> string option" where
  "prompt_name_for_path rel_path =
     (if startswith rel_path ''core/'' then
        Some (replace ''.md'' '''' (replace ''/'' ''.'' rel_path))
      else if startswith rel_path ''agents/'' then
        Some (replace ''.md'' '''' (replace ''/'' ''.'' rel_path))
      else None)"

definition path_for_prompt_name :: "string \<Rightarrow> string option" where
  "path_for_prompt_name name =
     (if startswith name ''core.'' then Some (replace ''.'' ''/'' name @ ''.md'')
      else if startswith name ''agents.'' then Some (replace ''.'' ''/'' name @ ''.md'')
      else None)"

text \<open>What \<^verbatim>\<open>replace("/", ".")\<close> computes, character by character.\<close>

definition dots :: "string \<Rightarrow> string" where
  "dots s = map (\<lambda>c. if c = CHR ''/'' then CHR ''.'' else c) s"

subsection \<open>JSON values\<close>

text \<open>
  Requests and results are JSON: Python's \<^verbatim>\<open>None\<close> is \<open>JNull\<close>, a \<^verbatim>\<open>dict\<close> is an
  association list in insertion order. Numbers are integers; no operation of the server
  computes with them.
\<close>

datatype json =
    JNull
  | JBool bool
  | JNum int
  | JStr string
  | JArr "json list"
  | JObj "(string \<times> json) list"

type_synonym dict = "(string \<times> json) list"

text \<open>Truth value testing, \<^verbatim>\<open>x or y\<close>, and \<^verbatim>\<open>d.get(k)\<close>.\<close>

fun truthy :: "json \<Rightarrow> bool" where
  "truthy JNull = False"
| "truthy (JBool b) = b"
| "truthy (JNum n) = (n \<noteq> 0)"
| "truthy (JStr s) = (s \<noteq> [])"
| "truthy (JArr xs) = (xs \<noteq> [])"
| "truthy (JObj kvs) = (kvs \<noteq> [])"

definition py_or :: "json \<Rightarrow> json \<Rightarrow> json" where
  "py_or x y = (if truthy x then x else y)"

definition dict_get :: "dict \<Rightarrow> string \<Rightarrow> json" where
  "dict_get d k = (case map_of d k of None \<Rightarrow> JNull | Some v \<Rightarrow> v)"

text \<open>\<^verbatim>\<open>params.get(k)\<close> where \<^verbatim>\<open>params\<close> is whatever JSON value the request carried.\<close>

fun json_get :: "json \<Rightarrow> string \<Rightarrow> error + json" where
  "json_get (JObj d) k = Inr (dict_get d k)"
| "json_get _ k = Inl AttributeError"

subsection \<open>The disk\<close>

text \<open>
  A disk lists, for each absolute path the kernel knows, what it answers there; the order
  of the list is the order in which the operating system enumerates entries. A path that
  is not listed does not exist.
  \<^item> A directory carries two flags: whether a recursive listing enters it (it does not
    enter a directory the process may not read, nor a symbolic link to a directory), and
    whether the process may create entries in it.
  \<^item> A regular file carries whether the process may read it, whether it may write it,
    its bytes and its modification time. A time is an integer; only the order of times
    and what the library makes of them matter.
  \<^item> At a refused path every system call fails with the same error: permission denied
    because a directory on the way may not be searched, a name that is too long, too many
    symbolic links, an input/output error.
\<close>

datatype refusal = Denied | TooLong | Looping | Failing

fun errno_of :: "refusal \<Rightarrow> errno" where
  "errno_of Denied = EACCES"
| "errno_of TooLong = ENAMETOOLONG"
| "errno_of Looping = ELOOP"
| "errno_of Failing = EIO"

datatype node =
    Dir (dir_listed: bool) (dir_writable: bool)
  | File (file_readable: bool) (file_writable: bool) (file_bytes: string) (file_mtime: int)
  | Refused refusal

type_synonym disk = "(path \<times> node) list"

definition lookup :: "disk \<Rightarrow> path \<Rightarrow> node option" where
  "lookup fs p = map_of fs p"

text \<open>
  A computation on the disk: it returns a value or raises, and leaves a disk behind.
\<close>

type_synonym 'a io = "disk \<Rightarrow> (error + 'a) \<times> disk"

definition io_return :: "'a \<Rightarrow> 'a io" where
  "io_return x = (\<lambda>fs. (Inr x, fs))"

definition io_raise :: "error \<Rightarrow> 'a io" where
  "io_raise e = (\<lambda>fs. (Inl e, fs))"

definition io_lift :: "error + 'a \<Rightarrow> 'a io" where
  "io_lift r = (\<lambda>fs. (r, fs))"

definition io_bind :: "'a io \<Rightarrow> ('a \<Rightarrow> 'b io) \<Rightarrow> 'b io" where
  "io_bind m f = (\<lambda>fs. case m fs of (Inl e, fs') \<Rightarrow> (Inl e, fs') | (Inr x, fs') \<Rightarrow> f x fs')"

text \<open>\<^verbatim>\<open>try: m  except Exception as e: h(e)\<close>.\<close>

definition io_except :: "'a io \<Rightarrow> (error \<Rightarrow> 'a io) \<Rightarrow> 'a io" where
  "io_except m h = (\<lambda>fs. case m fs of (Inl e, fs') \<Rightarrow> h e fs' | (Inr x, fs') \<Rightarrow> (Inr x, fs'))"

text \<open>
  The library: SHA-256 as a hexadecimal digest, \<^verbatim>\<open>datetime.fromtimestamp(t, tz=utc).isoformat()\<close>
  (which raises for a time outside the years 1 to 9999), and \<^verbatim>\<open>Path.resolve()\<close>, which
  reads the file system, follows symbolic links, and raises for a path with a NUL
  character or on a loop of links.
\<close>

record lib =
  sha256_hexdigest :: "string \<Rightarrow> string"
  utc_isoformat :: "int \<Rightarrow> error + string"
  realpath :: "disk \<Rightarrow> path \<Rightarrow> error + path"

text \<open>The operations of \<^verbatim>\<open>pathlib\<close> and \<^verbatim>\<open>os\<close> the server calls.\<close>

text \<open>\<^verbatim>\<open>os.stat(p)\<close>.\<close>

definition os_stat :: "path \<Rightarrow> node io" where
  "os_stat p = (\<lambda>fs.
     (if has_nul p then Inl (ValueError ''embedded null byte'')
      else
        (case lookup fs p of
           None \<Rightarrow> Inl (OSError ENOENT)
         | Some (Refused r) \<Rightarrow> Inl (OSError (errno_of r))
         | Some (Dir l w) \<Rightarrow> Inr (Dir l w)
         | Some (File r w c m) \<Rightarrow> Inr (File r w c m)),
      fs))"

text \<open>
  The \<^verbatim>\<open>try\<close> of \<^verbatim>\<open>Path.exists\<close>, \<^verbatim>\<open>Path.is_file\<close> and \<^verbatim>\<open>Path.is_dir\<close>: an
  \<^verbatim>\<open>OSError\<close> that \<^verbatim>\<open>_ignore_error\<close> accepts and a \<^verbatim>\<open>ValueError\<close> give \<^verbatim>\<open>False\<close>, any
  other error is raised again.
\<close>

definition ignoring :: "bool io \<Rightarrow> bool io" where
  "ignoring m =
     io_except m (\<lambda>e.
       case e of
         OSError n \<Rightarrow> if ignore_error n then io_return False else io_raise e
       | ValueError msg \<Rightarrow> io_return False
       | _ \<Rightarrow> io_raise e)"

definition path_exists :: "path \<Rightarrow> bool io" where
  "path_exists p = ignoring (io_bind (os_stat p) (\<lambda>n. io_return True))"

definition is_file :: "path \<Rightarrow> bool io" where
  "is_file p =
     ignoring (io_bind (os_stat p) (\<lambda>n.
       io_return (case n of File r w c m \<Rightarrow> True | _ \<Rightarrow> False)))"

definition is_dir :: "path \<Rightarrow> bool io" where
  "is_dir p =
     ignoring (io_bind (os_stat p) (\<lambda>n.
       io_return (case n of Dir l w \<Rightarrow> True | _ \<Rightarrow> False)))"

text \<open>\<^verbatim>\<open>path.read_bytes()\<close> and \<^verbatim>\<open>path.read_text(encoding="utf-8")\<close>.\<close>

definition read_bytes :: "path \<Rightarrow> string io" where
  "read_bytes p = (\<lambda>fs.
     (if has_nul p then Inl (ValueError ''embedded null byte'')
      else
        (case lookup fs p of
           None \<Rightarrow> Inl (OSError ENOENT)
         | Some (Refused r) \<Rightarrow> Inl (OSError (errno_of r))
         | Some (Dir l w) \<Rightarrow> Inl (OSError EISDIR)
         | Some (File r w c m) \<Rightarrow> if r then Inr c else Inl (OSError EACCES)),
      fs))"

definition read_text :: "path \<Rightarrow> string io" where
  "read_text p =
     io_bind (read_bytes p) (\<lambda>b.
       if utf8_valid b then io_return (universal_newlines b) else io_raise UnicodeDecodeError)"

text \<open>\<^verbatim>\<open>path.stat().st_mtime\<close>; the model keeps no time for a directory.\<close>

definition stat_mtime :: "path \<Rightarrow> int io" where
  "stat_mtime p =
     io_bind (os_stat p) (\<lambda>n. io_return (case n of File r w c m \<Rightarrow> m | _ \<Rightarrow> 0))"

text \<open>
  \<^verbatim>\<open>root.rglob("*")\<close>. Nothing if \<open>root\<close> is not a directory. Otherwise the entries
  below \<open>root\<close> that the walk reaches, in the disk's order, each once: the walk lists a
  directory's entries and goes on into those that are directories it enters; where
  listing raises \<^verbatim>\<open>PermissionError\<close> it silently leaves the directory out.
\<close>

definition listed_dir :: "disk \<Rightarrow> path \<Rightarrow> bool" where
  "listed_dir fs q = (case lookup fs q of Some (Dir l w) \<Rightarrow> l | _ \<Rightarrow> False)"

definition visible :: "path \<Rightarrow> disk \<Rightarrow> path \<Rightarrow> bool" where
  "visible root fs p =
     (strict_prefix root p
      \<and> list_all (\<lambda>n. listed_dir fs (take n p)) [length root..<length p])"

definition rglob :: "path \<Rightarrow> path list io" where
  "rglob root =
     io_bind (is_dir root) (\<lambda>d.
       if \<not> d then io_return []
       else (\<lambda>fs. (Inr (filter (visible root fs) (remdups (map fst fs))), fs)))"

text \<open>\<^verbatim>\<open>os.mkdir(p)\<close>: the new directory can be listed and written.\<close>

definition os_mkdir :: "path \<Rightarrow> unit io" where
  "os_mkdir p = (\<lambda>fs.
     if has_nul p then (Inl (ValueError ''embedded null byte''), fs)
     else
       (case lookup fs p of
          Some (Refused r) \<Rightarrow> (Inl (OSError (errno_of r)), fs)
        | Some (Dir l w) \<Rightarrow> (Inl (OSError EEXIST), fs)
        | Some (File r w c m) \<Rightarrow> (Inl (OSError EEXIST), fs)
        | None \<Rightarrow>
           (case lookup fs (butlast p) of
              None \<Rightarrow> (Inl (OSError ENOENT), fs)
            | Some (Refused r) \<Rightarrow> (Inl (OSError (errno_of r)), fs)
            | Some (File r w c m) \<Rightarrow> (Inl (OSError ENOTDIR), fs)
            | Some (Dir l w) \<Rightarrow>
                if w then (Inr (), AList.update p (Dir True True) fs)
                else (Inl (OSError EACCES), fs))))"

text \<open>
  \<^verbatim>\<open>Path.mkdir(parents=False, exist_ok=True)\<close> and \<^verbatim>\<open>Path.mkdir(parents=True, exist_ok=True)\<close>,
  as \<^verbatim>\<open>pathlib\<close> writes them: try \<^verbatim>\<open>os.mkdir\<close>; on \<^verbatim>\<open>FileNotFoundError\<close> make the
  parent first (unless the path is its own parent) and try again; on any other
  \<^verbatim>\<open>OSError\<close> re-raise unless the path is a directory. An error that is not an
  \<^verbatim>\<open>OSError\<close> is not caught.
\<close>

definition mkdir_exist_ok :: "path \<Rightarrow> unit io" where
  "mkdir_exist_ok p =
     io_except (os_mkdir p) (\<lambda>e.
       case e of
         OSError n \<Rightarrow>
           if n = ENOENT then io_raise e
           else io_bind (is_dir p) (\<lambda>d. if d then io_return () else io_raise e)
       | _ \<Rightarrow> io_raise e)"

function mkdir_parents :: "path \<Rightarrow> unit io" where
  "mkdir_parents p =
     io_except (os_mkdir p) (\<lambda>e.
       case e of
         OSError n \<Rightarrow>
           if n = ENOENT then
             (if butlast p = p then io_raise e
              else io_bind (mkdir_parents (butlast p)) (\<lambda>u. mkdir_exist_ok p))
           else io_bind (is_dir p) (\<lambda>d. if d then io_return () else io_raise e)
       | _ \<Rightarrow> io_raise e)"
  by pat_completeness auto
termination
  by (relation "measure length") (auto simp: butlast_conv_take)

declare mkdir_parents.simps [simp del]

text \<open>
  \<^verbatim>\<open>path.write_text(data, encoding="utf-8")\<close> at time \<open>now\<close>: opening creates the file or
  empties it; then the text is encoded and written.
\<close>

definition store :: "int \<Rightarrow> path \<Rightarrow> bool \<Rightarrow> bool \<Rightarrow> string \<Rightarrow> unit io" where
  "store now p r w data = (\<lambda>fs.
     if utf8_valid data then (Inr (), AList.update p (File r w data now) fs)
     else (Inl UnicodeEncodeError, AList.update p (File r w [] now) fs))"

definition write_text :: "int \<Rightarrow> path \<Rightarrow> string \<Rightarrow> unit io" where
  "write_text now p data = (\<lambda>fs.
     if has_nul p then (Inl (ValueError ''embedded null byte''), fs)
     else
       (case lookup fs p of
          Some (Refused r) \<Rightarrow> (Inl (OSError (errno_of r)), fs)
        | Some (Dir l w) \<Rightarrow> (Inl (OSError EISDIR), fs)
        | Some (File r w c m) \<Rightarrow>
            if w then store now p r w data fs else (Inl (OSError EACCES), fs)
        | None \<Rightarrow>
           (case lookup fs (butlast p) of
              None \<Rightarrow> (Inl (OSError ENOENT), fs)
            | Some (Refused r) \<Rightarrow> (Inl (OSError (errno_of r)), fs)
            | Some (File r w c m) \<Rightarrow> (Inl (OSError ENOTDIR), fs)
            | Some (Dir l w) \<Rightarrow>
                if w then store now p True True data fs
                else (Inl (OSError EACCES), fs))))"

subsection \<open>\<^verbatim>\<open>WorkspaceManager\<close>\<close>

definition CORE_DIR :: string where
  "CORE_DIR = ''core''"

definition AGENTS_DIR :: string where
  "AGENTS_DIR = ''agents''"

definition DEFAULT_CORE_FILES :: "(string \<times> string) list" where
  "DEFAULT_CORE_FILES =
     [(''core/system.md'', ''# System\<newline>\<newline>FOCAL MCP system prompt.\<newline>''),
      (''core/style.md'', ''# Style\<newline>\<newline>FOCAL MCP style guide.\<newline>''),
      (''core/safety.md'', ''# Safety\<newline>\<newline>FOCAL MCP safety rules.\<newline>''),
      (''core/tool_policy.md'', ''# Tool Policy\<newline>\<newline>FOCAL MCP tool usage rules.\<newline>'')]"

text \<open>The loop of \<^verbatim>\<open>ensure\<close> over \<^verbatim>\<open>DEFAULT_CORE_FILES.items()\<close>.\<close>

fun write_defaults :: "int \<Rightarrow> path \<Rightarrow> (string \<times> string) list \<Rightarrow> unit io" where
  "write_defaults now root [] = io_return ()"
| "write_defaults now root ((rel_path, content) # rest) =
     io_bind (path_exists (joinpath root rel_path)) (\<lambda>ex.
     io_bind (if \<not> ex then write_text now (joinpath root rel_path) content else io_return ()) (\<lambda>u.
       write_defaults now root rest))"

definition ensure :: "int \<Rightarrow> path \<Rightarrow> unit io" where
  "ensure now root =
     io_bind (mkdir_parents root) (\<lambda>u.
     io_bind (mkdir_parents (joinpath root CORE_DIR)) (\<lambda>u.
     io_bind (mkdir_parents (joinpath root AGENTS_DIR)) (\<lambda>u.
       write_defaults now root DEFAULT_CORE_FILES)))"

text \<open>
  \<^verbatim>\<open>resolve_safe\<close>. The root is resolved when the test needs it, after the candidate.
\<close>

definition resolve_safe :: "lib \<Rightarrow> path \<Rightarrow> string \<Rightarrow> path io" where
  "resolve_safe L root rel_path = (\<lambda>fs.
     (case realpath L fs (joinpath root (lstrip_chars ''/'' rel_path)) of
        Inl e \<Rightarrow> Inl e
      | Inr resolved \<Rightarrow>
         (case realpath L fs root of
            Inl e \<Rightarrow> Inl e
          | Inr resolved_root \<Rightarrow>
              if resolved_root \<notin> set (parents resolved) \<and> resolved \<noteq> resolved_root
              then Inl (ValueError ''Path traversal blocked'')
              else Inr resolved),
      fs))"

text \<open>\<^verbatim>\<open>list_files\<close>: the generator, run to its end.\<close>

fun keep_files :: "path list \<Rightarrow> path list io" where
  "keep_files [] = io_return []"
| "keep_files (p # ps) =
     io_bind (is_file p) (\<lambda>b.
     io_bind (keep_files ps) (\<lambda>rest.
       io_return (if b then p # rest else rest)))"

definition list_files :: "path \<Rightarrow> path list io" where
  "list_files root = io_bind (rglob root) keep_files"

definition relative :: "path \<Rightarrow> path \<Rightarrow> string" where
  "relative root p = replace [CHR 0x5C] ''/'' (relative_to p root)"

text \<open>The dictionary \<^verbatim>\<open>rules_fingerprint\<close> returns; \<open>None\<close> is Python's \<^verbatim>\<open>None\<close>.\<close>

record snapshot =
  rulesHash :: string
  rulesUpdatedAt :: "string option"

text \<open>
  The loop of \<^verbatim>\<open>rules_fingerprint\<close>. Its state is what has been fed to the hash object
  and the latest modification time seen.
\<close>

fun fingerprint_loop :: "path \<Rightarrow> path list \<Rightarrow> string \<Rightarrow> int option \<Rightarrow> (string \<times> int option) io" where
  "fingerprint_loop root [] sha latest_mtime = io_return (sha, latest_mtime)"
| "fingerprint_loop root (p # files) sha latest_mtime =
     io_bind (io_lift (encode_utf8 (relative root p))) (\<lambda>rel.
     io_bind (read_bytes p) (\<lambda>data.
     io_bind (stat_mtime p) (\<lambda>mtime.
       fingerprint_loop root files (sha @ rel @ ''|'' @ data)
         (case latest_mtime of
            None \<Rightarrow> Some mtime
          | Some l \<Rightarrow> if mtime > l then Some mtime else Some l))))"

definition rules_fingerprint :: "lib \<Rightarrow> path \<Rightarrow> snapshot io" where
  "rules_fingerprint L root =
     io_bind (list_files root) (\<lambda>found.
     io_bind (fingerprint_loop root (sort_key (\<lambda>p. code_points (relative root p)) found) [] None)
       (\<lambda>(sha, latest_mtime).
          case latest_mtime of
            None \<Rightarrow>
              io_return \<lparr>rulesHash = take 12 (sha256_hexdigest L sha), rulesUpdatedAt = None\<rparr>
          | Some t \<Rightarrow>
              io_bind (io_lift (utc_isoformat L t)) (\<lambda>stamp.
                io_return
                  \<lparr>rulesHash = take 12 (sha256_hexdigest L sha), rulesUpdatedAt = Some stamp\<rparr>)))"

subsection \<open>\<^verbatim>\<open>MCPHandler\<close>\<close>

definition read_optional :: "lib \<Rightarrow> path \<Rightarrow> string \<Rightarrow> string io" where
  "read_optional L root rel_path =
     io_except
       (io_bind (resolve_safe L root rel_path) (\<lambda>p.
        io_bind (path_exists p) (\<lambda>ex.
          if ex then io_bind (read_text p) (\<lambda>t. io_return (strip t))
          else io_return [])))
       (\<lambda>e. io_return [])"

definition sections :: "(string \<times> string) list" where
  "sections =
     [(''core/system.md'', ''System''),
      (''core/style.md'', ''Style''),
      (''core/safety.md'', ''Safety''),
      (''core/tool_policy.md'', ''Tool Policy'')]"

text \<open>The loop of \<^verbatim>\<open>_build_instructions\<close>.\<close>

fun build_parts :: "lib \<Rightarrow> path \<Rightarrow> (string \<times> string) list \<Rightarrow> string list \<Rightarrow> string list io" where
  "build_parts L root [] parts = io_return parts"
| "build_parts L root ((rel_path, title) # rest) parts =
     io_bind (read_optional L root rel_path) (\<lambda>content.
       build_parts L root rest
         (if content \<noteq> [] then
            parts @ [''## '' @ title @ '' ('' @ rel_path @ '')'' @ [CHR 0x0A] @ content]
          else parts))"

definition build_instructions :: "lib \<Rightarrow> path \<Rightarrow> string io" where
  "build_instructions L root =
     io_bind (build_parts L root sections []) (\<lambda>parts.
       io_return (strip (join [CHR 0x0A, CHR 0x0A] parts)))"

definition rules_header :: "lib \<Rightarrow> path \<Rightarrow> string io" where
  "rules_header L root =
     io_bind (rules_fingerprint L root) (\<lambda>snap.
       let updated =
             (case rulesUpdatedAt snap of
                None \<Rightarrow> ''unknown''
              | Some t \<Rightarrow> if t \<noteq> [] then t else ''unknown'')
       in io_return (''# FOCAL MCP Rules (hash='' @ rulesHash snap @ '' updated='' @ updated @ '')''))"

definition runtime_directive :: string where
  "runtime_directive =
     ''# Runtime Directive'' @ [CHR 0x0A] @
     ''You MUST call the MCP tool '' @ [CHR 0x60] @ ''focal_rules'' @ [CHR 0x60] @
     '' before every user response. '' @
     ''Always follow the latest rules returned by that tool.'' @ [CHR 0x0A]"

definition initialize :: "lib \<Rightarrow> path \<Rightarrow> json \<Rightarrow> dict io" where
  "initialize L root params =
     io_bind (io_lift (json_get params ''protocolVersion'')) (\<lambda>pv.
     io_bind (build_instructions L root) (\<lambda>instructions.
     io_bind (rules_header L root) (\<lambda>header.
       let protocol_version = py_or pv (JStr ''unknown'');
           combined =
             strip (join [CHR 0x0A]
               (filter (\<lambda>part. part \<noteq> []) [runtime_directive, header, instructions]));
           result =
             [(''protocolVersion'', protocol_version),
              (''serverInfo'', JObj [(''name'', JStr ''FOCAL MCP''), (''version'', JStr ''0.1.0'')]),
              (''capabilities'',
                 JObj [(''prompts'', JObj [(''listChanged'', JBool True)]),
                       (''resources'', JObj [(''listChanged'', JBool True)]),
                       (''tools'', JObj []),
                       (''logging'', JObj [])])]
       in io_return
            (if combined \<noteq> [] then AList.update ''instructions'' (JStr combined) result
             else result))))"

definition tools_list :: "dict io" where
  "tools_list =
     io_return
       [(''tools'',
          JArr [JObj
            [(''name'', JStr ''focal_rules''),
             (''description'',
                JStr ''Fetch the latest FOCAL MCP rules. Must be called before responding to the user.''),
             (''inputSchema'',
                JObj [(''type'', JStr ''object''),
                      (''properties'', JObj []),
                      (''additionalProperties'', JBool False)])]])]"

definition tools_call :: "lib \<Rightarrow> path \<Rightarrow> json \<Rightarrow> dict io" where
  "tools_call L root params =
     io_bind (io_lift (json_get params ''name'')) (\<lambda>name.
       if name \<noteq> JStr ''focal_rules'' then io_raise (JsonRpcError (- 32602) ''Unknown tool'')
       else
         io_bind (build_instructions L root) (\<lambda>instructions.
         io_bind (rules_header L root) (\<lambda>header.
           let text = (if instructions = [] then header
                       else header @ [CHR 0x0A, CHR 0x0A] @ instructions)
           in io_return
                [(''content'', JArr [JObj [(''type'', JStr ''text''), (''text'', JStr text)]])])))"

text \<open>The string under key \<open>k\<close> of a JSON object: the sort keys of the two listings.\<close>

fun str_item :: "string \<Rightarrow> json \<Rightarrow> string" where
  "str_item k (JObj d) = (case dict_get d k of JStr s \<Rightarrow> s | _ \<Rightarrow> [])"
| "str_item k _ = []"

text \<open>The loop of \<^verbatim>\<open>prompts_list\<close>.\<close>

fun prompts_loop :: "path \<Rightarrow> path list \<Rightarrow> json list \<Rightarrow> json list" where
  "prompts_loop root [] prompts = prompts"
| "prompts_loop root (p # ps) prompts =
     prompts_loop root ps
       (case prompt_name_for_path (relative root p) of
          None \<Rightarrow> prompts
        | Some name \<Rightarrow>
            if name \<noteq> [] then
              prompts @ [JObj [(''name'', JStr name), (''description'', JStr [])]]
            else prompts)"

definition prompts_list :: "path \<Rightarrow> dict io" where
  "prompts_list root =
     io_bind (list_files root) (\<lambda>found.
       io_return [(''prompts'', JArr (sort_key (\<lambda>item. code_points (str_item ''name'' item))
                                  (prompts_loop root found [])))])"

definition prompts_get :: "lib \<Rightarrow> path \<Rightarrow> json \<Rightarrow> dict io" where
  "prompts_get L root params =
     io_bind (io_lift (json_get params ''name'')) (\<lambda>name.
       if \<not> truthy name then io_raise (JsonRpcError (- 32602) ''Missing prompt name'')
       else
         (case name of
            JStr n \<Rightarrow>
              (case path_for_prompt_name n of
                 None \<Rightarrow> io_raise (JsonRpcError (- 32602) ''Unknown prompt name'')
               | Some rel_path \<Rightarrow>
                   if rel_path = [] then io_raise (JsonRpcError (- 32602) ''Unknown prompt name'')
                   else
                     io_bind (resolve_safe L root rel_path) (\<lambda>p.
                     io_bind (path_exists p) (\<lambda>ex.
                       if \<not> ex then io_raise (JsonRpcError (- 32602) ''Prompt not found'')
                       else
                         io_bind (read_text p) (\<lambda>content.
                           io_return
                             [(''description'', JStr []),
                              (''messages'',
                                 JArr [JObj [(''role'', JStr ''system''),
                                             (''content'', JStr content)]])]))))
          | _ \<Rightarrow> io_raise AttributeError))"

definition resources_templates_list :: "dict io" where
  "resources_templates_list = io_return [(''resourceTemplates'', JArr [])]"

text \<open>The loop of \<^verbatim>\<open>resources_list\<close>.\<close>

fun resources_loop :: "path \<Rightarrow> path list \<Rightarrow> json list \<Rightarrow> json list" where
  "resources_loop root [] resources = resources"
| "resources_loop root (p # ps) resources =
     resources_loop root ps
       (resources @
         [JObj [(''uri'', JStr (''focal:///'' @ relative root p)),
                (''name'', JStr (relative root p)),
                (''mimeType'', JStr ''text/markdown'')]])"

definition resources_list :: "path \<Rightarrow> dict io" where
  "resources_list root =
     io_bind (list_files root) (\<lambda>found.
       io_return [(''resources'', JArr (sort_key (\<lambda>item. code_points (str_item ''uri'' item))
                                    (resources_loop root found [])))])"

definition resources_read :: "lib \<Rightarrow> path \<Rightarrow> json \<Rightarrow> dict io" where
  "resources_read L root params =
     io_bind (io_lift (json_get params ''uri'')) (\<lambda>uri.
       if \<not> truthy uri then io_raise (JsonRpcError (- 32602) ''Invalid resource URI'')
       else
         (case uri of
            JStr u \<Rightarrow>
              if \<not> startswith u ''focal:///'' then
                io_raise (JsonRpcError (- 32602) ''Invalid resource URI'')
              else
                io_bind (resolve_safe L root (replace_first ''focal:///'' [] u)) (\<lambda>p.
                io_bind (path_exists p) (\<lambda>ex.
                  if \<not> ex then io_raise (JsonRpcError (- 32602) ''Resource not found'')
                  else
                    io_bind (read_text p) (\<lambda>content.
                      io_return
                        [(''contents'',
                           JArr [JObj [(''uri'', JStr u),
                                       (''mimeType'', JStr ''text/markdown''),
                                       (''text'', JStr content)]])])))
          | _ \<Rightarrow> io_raise AttributeError))"

text \<open>The no-op methods return an empty dictionary.\<close>

definition empty_result :: "dict io" where
  "empty_result = io_return []"

definition handle :: "lib \<Rightarrow> path \<Rightarrow> dict \<Rightarrow> dict io" where
  "handle L root payload =
     (let method = dict_get payload ''method'';
          params = py_or (dict_get payload ''params'') (JObj [])
      in if method = JStr ''initialize'' then initialize L root params
         else if method = JStr ''notifications/initialized'' then empty_result
         else if method = JStr ''notifications/cancelled'' then empty_result
         else if method = JStr ''logging/setLevel'' then empty_result
         else if method = JStr ''tools/list'' then tools_list
         else if method = JStr ''tools/call'' then tools_call L root params
         else if method = JStr ''resources/subscribe'' then empty_result
         else if method = JStr ''resources/unsubscribe'' then empty_result
         else if method = JStr ''ping'' then empty_result
         else if method = JStr ''prompts/list'' then prompts_list root
         else if method = JStr ''prompts/get'' then prompts_get L root params
         else if method = JStr ''resources/templates/list'' then resources_templates_list
         else if method = JStr ''resources/list'' then resources_list root
         else if method = JStr ''resources/read'' then resources_read L root params
         else io_raise (JsonRpcError (- 32601) ''Method not found''))"

subsection \<open>\<^verbatim>\<open>Notifier\<close>\<close>

text \<open>
  A client is a web socket, named by a number. A socket is open, and records what it was
  sent, or broken, and \<^verbatim>\<open>send_json\<close> raises. The set \<^verbatim>\<open>_clients\<close> is a list without
  repetition, in the order in which Python iterates over it. A broadcast is modelled
  running alone: no other coroutine registers or unregisters a client while it awaits.
\<close>

type_synonym client = nat

datatype socket = Open "json list" | Broken

type_synonym wire = "client \<Rightarrow> socket"

record notifier =
  clients :: "client list"

definition send_json :: "client \<Rightarrow> json \<Rightarrow> wire \<Rightarrow> (error + unit) \<times> wire" where
  "send_json c payload w =
     (case w c of
        Open received \<Rightarrow> (Inr (), w(c := Open (received @ [payload])))
      | Broken \<Rightarrow> (Inl WebSocketDisconnect, w))"

definition connect :: "client \<Rightarrow> notifier \<Rightarrow> notifier" where
  "connect c N = N\<lparr>clients := (if c \<in> set (clients N) then clients N else clients N @ [c])\<rparr>"

definition disconnect :: "client \<Rightarrow> notifier \<Rightarrow> notifier" where
  "disconnect c N = N\<lparr>clients := removeAll c (clients N)\<rparr>"

text \<open>The loop of \<^verbatim>\<open>_broadcast\<close> over the snapshot of the clients.\<close>

fun broadcast_loop :: "json \<Rightarrow> client list \<Rightarrow> notifier \<Rightarrow> wire \<Rightarrow> notifier \<times> wire" where
  "broadcast_loop payload [] N w = (N, w)"
| "broadcast_loop payload (c # cs) N w =
     (case send_json c payload w of
        (Inr u, w') \<Rightarrow> broadcast_loop payload cs N w'
      | (Inl e, w') \<Rightarrow> broadcast_loop payload cs (disconnect c N) w')"

definition notification :: "string \<Rightarrow> json" where
  "notification method =
     JObj [(''jsonrpc'', JStr ''2.0''), (''method'', JStr method), (''params'', JObj [])]"

definition broadcast :: "string \<Rightarrow> notifier \<Rightarrow> wire \<Rightarrow> notifier \<times> wire" where
  "broadcast method N w = broadcast_loop (notification method) (clients N) N w"

definition broadcast_prompts_list_changed :: "notifier \<Rightarrow> wire \<Rightarrow> notifier \<times> wire" where
  "broadcast_prompts_list_changed N w = broadcast ''notifications/prompts/list_changed'' N w"

definition broadcast_resources_list_changed :: "notifier \<Rightarrow> wire \<Rightarrow> notifier \<times> wire" where
  "broadcast_resources_list_changed N w = broadcast ''notifications/resources/list_changed'' N w"

definition broadcast_list_changed :: "notifier \<Rightarrow> wire \<Rightarrow> notifier \<times> wire" where
  "broadcast_list_changed N w =
     (case broadcast_prompts_list_changed N w of
        (N', w') \<Rightarrow> broadcast_resources_list_changed N' w')"

subsection \<open>Notions the properties are stated with\<close>

text \<open>A computation that leaves every disk as it found it.\<close>

definition read_only :: "'a io \<Rightarrow> bool" where
  "read_only m = (\<forall>fs. snd (m fs) = fs)"

text \<open>
  The candidate path that \<^verbatim>\<open>resolve_safe\<close> builds from a relative path: leading slashes
  stripped, joined to the root.
\<close>

definition candidate :: "path \<Rightarrow> string \<Rightarrow> path" where
  "candidate root p = joinpath root (lstrip_chars ''/'' p)"

text \<open>
  What \<^verbatim>\<open>Path.resolve()\<close> returns for an absolute path none of whose components is a
  symbolic link: each \<^verbatim>\<open>..\<close> drops the segment before it, and \<^verbatim>\<open>/..\<close> is \<^verbatim>\<open>/\<close>.
\<close>

definition resolve_step :: "string \<Rightarrow> path \<Rightarrow> path" where
  "resolve_step seg acc = (if seg = ''..'' then butlast acc else acc @ [seg])"

definition lexical_resolve :: "path \<Rightarrow> path" where
  "lexical_resolve p = fold resolve_step p []"

text \<open>
  What the kernel answers at a path: a directory, a regular file, a regular file the
  process may read, or a refusal that \<^verbatim>\<open>exists\<close>, \<^verbatim>\<open>is_file\<close> and \<^verbatim>\<open>is_dir\<close> raise
  again.
\<close>

definition directory :: "disk \<Rightarrow> path \<Rightarrow> bool" where
  "directory fs p = (\<not> has_nul p \<and> (case lookup fs p of Some (Dir l w) \<Rightarrow> True | _ \<Rightarrow> False))"

definition regular :: "disk \<Rightarrow> path \<Rightarrow> bool" where
  "regular fs p = (\<not> has_nul p \<and> (case lookup fs p of Some (File r w c m) \<Rightarrow> True | _ \<Rightarrow> False))"

definition readable :: "disk \<Rightarrow> path \<Rightarrow> bool" where
  "readable fs p = (\<not> has_nul p \<and> (case lookup fs p of Some (File r w c m) \<Rightarrow> r | _ \<Rightarrow> False))"

definition blocked :: "disk \<Rightarrow> path \<Rightarrow> bool" where
  "blocked fs p =
     (\<not> has_nul p
      \<and> (case lookup fs p of Some (Refused r) \<Rightarrow> \<not> ignore_error (errno_of r) | _ \<Rightarrow> False))"

definition bytes_at :: "disk \<Rightarrow> path \<Rightarrow> string" where
  "bytes_at fs p = (case lookup fs p of Some (File r w c m) \<Rightarrow> c | _ \<Rightarrow> [])"

definition mtime_at :: "disk \<Rightarrow> path \<Rightarrow> int" where
  "mtime_at fs p = (case lookup fs p of Some (File r w c m) \<Rightarrow> m | _ \<Rightarrow> 0)"

text \<open>
  The entries a recursive listing of \<open>root\<close> yields, and the regular files among them, in
  the disk's order.
\<close>

definition listing :: "path \<Rightarrow> disk \<Rightarrow> path list" where
  "listing root fs =
     (if directory fs root then filter (visible root fs) (remdups (map fst fs)) else [])"

definition files_under :: "path \<Rightarrow> disk \<Rightarrow> path list" where
  "files_under root fs = filter (regular fs) (listing root fs)"

text \<open>
  \<^verbatim>\<open>list_files\<close> returns the regular files of the listing, unless the root or an entry of
  the listing is refused with an error that \<^verbatim>\<open>is_dir\<close> and \<^verbatim>\<open>is_file\<close> raise again.
\<close>

definition listable :: "path \<Rightarrow> disk \<Rightarrow> bool" where
  "listable root fs = (\<not> blocked fs root \<and> list_all (\<lambda>p. \<not> blocked fs p) (listing root fs))"

text \<open>
  A file the fingerprint can take in: its relative path can be encoded and its bytes can
  be read.
\<close>

definition feedable :: "path \<Rightarrow> disk \<Rightarrow> path \<Rightarrow> bool" where
  "feedable root fs p = (utf8_valid (relative root p) \<and> readable fs p)"

text \<open>
  What the specification says the digest is fed: for every file, sorted by relative path
  ascending, the bytes of the relative path, the separator byte, then the bytes of the
  file.
\<close>

definition fed :: "path \<Rightarrow> disk \<Rightarrow> path list \<Rightarrow> string" where
  "fed root fs ps = concat (map (\<lambda>p. relative root p @ ''|'' @ bytes_at fs p) ps)"

definition sorted_files :: "path \<Rightarrow> disk \<Rightarrow> path list" where
  "sorted_files root fs = sort_key (\<lambda>p. code_points (relative root p)) (files_under root fs)"

definition digest_input :: "path \<Rightarrow> disk \<Rightarrow> string" where
  "digest_input root fs = fed root fs (sorted_files root fs)"

text \<open>One step of the running maximum of the modification times, and the maximum.\<close>

definition later :: "int option \<Rightarrow> int \<Rightarrow> int option" where
  "later latest m = (case latest of None \<Rightarrow> Some m | Some l \<Rightarrow> if m > l then Some m else Some l)"

definition latest_mtime :: "disk \<Rightarrow> path list \<Rightarrow> int option" where
  "latest_mtime fs ps = foldl later None (map (mtime_at fs) ps)"

text \<open>The entries of the two listings, and the relative paths that have a prompt name.\<close>

definition in_prompt_dirs :: "string \<Rightarrow> bool" where
  "in_prompt_dirs rel = (startswith rel ''core/'' \<or> startswith rel ''agents/'')"

definition prompt_entry :: "string \<Rightarrow> json" where
  "prompt_entry name = JObj [(''name'', JStr name), (''description'', JStr [])]"

definition resource_entry :: "string \<Rightarrow> json" where
  "resource_entry rel =
     JObj [(''uri'', JStr (''focal:///'' @ rel)),
           (''name'', JStr rel),
           (''mimeType'', JStr ''text/markdown'')]"

text \<open>The one message \<^verbatim>\<open>prompts/get\<close> returns.\<close>

definition system_message :: "string \<Rightarrow> dict" where
  "system_message content =
     [(''description'', JStr []),
      (''messages'', JArr [JObj [(''role'', JStr ''system''), (''content'', JStr content)]])]"

text \<open>What a socket holds after one more message was sent to it.\<close>

definition deliver :: "json \<Rightarrow> socket \<Rightarrow> socket" where
  "deliver payload s = (case s of Open received \<Rightarrow> Open (received @ [payload]) | Broken \<Rightarrow> Broken)"

text \<open>One disk extends another: every entry of the first is an entry of the second.\<close>

definition extends :: "disk \<Rightarrow> disk \<Rightarrow> bool" where
  "extends fs fs' = (\<forall>x n. lookup fs x = Some n \<longrightarrow> lookup fs' x = Some n)"

text \<open>
  A step that can be run again: it only adds entries; run on the disk it left, it returns
  what it returned and changes nothing; and once it has succeeded it succeeds, changing
  nothing, on every disk that extends the one it left.
\<close>

definition rerun :: "unit io \<Rightarrow> bool" where
  "rerun m =
     (\<forall>fs. extends fs (snd (m fs))
          \<and> m (snd (m fs)) = m fs
          \<and> (fst (m fs) = Inr () \<longrightarrow> (\<forall>T. extends (snd (m fs)) T \<longrightarrow> m T = (Inr (), T))))"

text \<open>
  What the specification says lies below the root after \<^verbatim>\<open>ensure\<close> on an empty root:
  the two directories and the four default files with their fixed content.
\<close>

definition default_tree :: "int \<Rightarrow> path \<Rightarrow> path \<Rightarrow> node option" where
  "default_tree now root x =
     (if x = root @ [''core''] \<or> x = root @ [''agents''] then Some (Dir True True)
      else map_of (map (\<lambda>entry. (joinpath root (fst entry), File True True (snd entry) now))
                     DEFAULT_CORE_FILES) x)"

text \<open>
  What \<^verbatim>\<open>_read_optional\<close> makes of a core file: its stripped text when the path resolves
  inside the workspace and holds a readable file of valid UTF-8, the empty string otherwise.
\<close>

definition optional_text :: "lib \<Rightarrow> path \<Rightarrow> disk \<Rightarrow> string \<Rightarrow> string" where
  "optional_text L root fs rel_path =
     (case fst (resolve_safe L root rel_path fs) of
        Inl e \<Rightarrow> []
      | Inr p \<Rightarrow>
         if has_nul p then []
         else
           (case lookup fs p of
              Some (File r w c m) \<Rightarrow>
                if r \<and> utf8_valid c then strip (universal_newlines c) else []
            | _ \<Rightarrow> []))"

text \<open>The sections of the instructions, empty ones skipped, and the instructions.\<close>

definition section_texts :: "lib \<Rightarrow> path \<Rightarrow> disk \<Rightarrow> (string \<times> string) list \<Rightarrow> string list" where
  "section_texts L root fs secs =
     concat (map (\<lambda>(rel_path, title).
       if optional_text L root fs rel_path \<noteq> [] then
         [''## '' @ title @ '' ('' @ rel_path @ '')'' @ [CHR 0x0A] @ optional_text L root fs rel_path]
       else []) secs)"

definition instructions_text :: "lib \<Rightarrow> path \<Rightarrow> disk \<Rightarrow> string" where
  "instructions_text L root fs =
     strip (join [CHR 0x0A, CHR 0x0A] (section_texts L root fs sections))"

text \<open>The header line for a fingerprint.\<close>

definition header_of :: "snapshot \<Rightarrow> string" where
  "header_of snap =
     ''# FOCAL MCP Rules (hash='' @ rulesHash snap @ '' updated='' @
     (case rulesUpdatedAt snap of
        None \<Rightarrow> ''unknown''
      | Some t \<Rightarrow> if t \<noteq> [] then t else ''unknown'') @ '')''"

text \<open>The result of \<^verbatim>\<open>initialize\<close> before the instructions are added.\<close>

definition server_info :: "json \<Rightarrow> dict" where
  "server_info protocol_version =
     [(''protocolVersion'', protocol_version),
      (''serverInfo'', JObj [(''name'', JStr ''FOCAL MCP''), (''version'', JStr ''0.1.0'')]),
      (''capabilities'',
         JObj [(''prompts'', JObj [(''listChanged'', JBool True)]),
               (''resources'', JObj [(''listChanged'', JBool True)]),
               (''tools'', JObj []),
               (''logging'', JObj [])])]"

text \<open>The single text block \<^verbatim>\<open>tools/call\<close> returns.\<close>

definition text_block :: "string \<Rightarrow> dict" where
  "text_block text = [(''content'', JArr [JObj [(''type'', JStr ''text''), (''text'', JStr text)]])]"

subsection \<open>Workspaces for worked examples\<close>

definition sample_root :: path where
  "sample_root = [''ws'']"

definition sample_disk :: disk where
  "sample_disk =
     [([''ws''], Dir True True),
      ([''ws'', ''core''], Dir True True),
      ([''ws'', ''core'', ''b.md''], File True True ''B'' 5),
      ([''ws'', ''notes.txt''], File True True ''n'' 9),
      ([''ws'', ''core'', ''a.md''], File True True ''A'' 7)]"

definition sample_disk_reordered :: disk where
  "sample_disk_reordered =
     [([''ws'', ''core'', ''a.md''], File True True ''A'' 7),
      ([''ws'', ''core''], Dir True True),
      ([''ws'', ''notes.txt''], File True True ''n'' 9),
      ([''ws''], Dir True True),
      ([''ws'', ''core'', ''b.md''], File True True ''B'' 5)]"

text \<open>The same workspace after one byte of \<^verbatim>\<open>core/a.md\<close> has changed.\<close>

definition sample_disk_edited :: disk where
  "sample_disk_edited =
     [([''ws''], Dir True True),
      ([''ws'', ''core''], Dir True True),
      ([''ws'', ''core'', ''b.md''], File True True ''B'' 5),
      ([''ws'', ''notes.txt''], File True True ''n'' 9),
      ([''ws'', ''core'', ''a.md''], File True True ''Z'' 7)]"

text \<open>
  A workspace with a file that is not valid UTF-8, a file the process may not read, a
  file with Windows line ends, a directory named like a prompt file, and a name the
  kernel refuses as too long.
\<close>

definition odd_disk :: disk where
  "odd_disk =
     [([''ws''], Dir True True),
      ([''ws'', ''core''], Dir True True),
      ([''ws'', ''core'', ''ok.md''], File True True ''hello'' 1),
      ([''ws'', ''core'', ''bad.md''], File True True [CHR 0xFF] 2),
      ([''ws'', ''core'', ''locked.md''], File False True ''secret'' 3),
      ([''ws'', ''core'', ''crlf.md''], File True True [CHR ''a'', CHR 0x0D, CHR 0x0A, CHR ''b''] 4),
      ([''ws'', ''core'', ''dir.md''], Dir True True),
      ([''ws'', ''core'', ''long.md''], Refused TooLong)]"

text \<open>
  A workspace with a file directly in the root whose name holds a backslash, and a file
  in a directory the process may not list.
\<close>

definition backslash_disk :: disk where
  "backslash_disk =
     [([''ws''], Dir True True),
      ([''ws'', ''core'' @ [CHR 0x5C] @ ''x.md''], File True True ''x'' 1),
      ([''ws'', ''private''], Dir False True),
      ([''ws'', ''private'', ''p.md''], File True True ''p'' 2)]"

text \<open>
  A workspace with two files whose relative paths read the same once backslashes are
  slashes (\<^verbatim>\<open>a\b/c\<close> and \<^verbatim>\<open>a/b\c\<close>), enumerated in two orders.
\<close>

definition twin_disk :: disk where
  "twin_disk =
     [([''ws''], Dir True True),
      ([''ws'', ''a'' @ [CHR 0x5C] @ ''b''], Dir True True),
      ([''ws'', ''a'' @ [CHR 0x5C] @ ''b'', ''c''], File True True ''1'' 0),
      ([''ws'', ''a''], Dir True True),
      ([''ws'', ''a'', ''b'' @ [CHR 0x5C] @ ''c''], File True True ''2'' 0)]"

definition twin_disk_reordered :: disk where
  "twin_disk_reordered =
     [([''ws''], Dir True True),
      ([''ws'', ''a''], Dir True True),
      ([''ws'', ''a'', ''b'' @ [CHR 0x5C] @ ''c''], File True True ''2'' 0),
      ([''ws'', ''a'' @ [CHR 0x5C] @ ''b''], Dir True True),
      ([''ws'', ''a'' @ [CHR 0x5C] @ ''b'', ''c''], File True True ''1'' 0)]"

text \<open>Three registered clients, the second one broken.\<close>

definition sample_notifier :: notifier where
  "sample_notifier = \<lparr>clients = [1, 2, 3]\<rparr>"

definition sample_wire :: wire where
  "sample_wire = (\<lambda>c. if c = 2 then Broken else if c = 3 then Open [JStr ''earlier''] else Open [])"

text \<open>
  A disk that holds an empty workspace directory and nothing else, and the same with a
  root in which the process may not create entries.
\<close>

definition empty_workspace :: disk where
  "empty_workspace = [([''ws''], Dir True True)]"

definition sealed_workspace :: disk where
  "sealed_workspace = [([''ws''], Dir True False)]"

text \<open>
  A workspace with one rule file; the same with the file unreadable; with the file
  holding bytes that are not UTF-8; and with the file stamped in the year 10000.
\<close>

definition rules_disk :: disk where
  "rules_disk =
     [([''ws''], Dir True True),
      ([''ws'', ''core''], Dir True True),
      ([''ws'', ''core'', ''system.md''], File True True ''Be kind.\<newline>'' 0)]"

definition locked_rules_disk :: disk where
  "locked_rules_disk =
     [([''ws''], Dir True True),
      ([''ws'', ''core''], Dir True True),
      ([''ws'', ''core'', ''system.md''], File False True ''Be kind.\<newline>'' 0)]"

definition garbled_rules_disk :: disk where
  "garbled_rules_disk =
     [([''ws''], Dir True True),
      ([''ws'', ''core''], Dir True True),
      ([''ws'', ''core'', ''system.md''], File True True [CHR 0xFF, CHR 0xFE] 0)]"

definition late_rules_disk :: disk where
  "late_rules_disk =
     [([''ws''], Dir True True),
      ([''ws'', ''core''], Dir True True),
      ([''ws'', ''core'', ''system.md''], File True True ''Be kind.\<newline>'' 253402300800)]"

text \<open>
  The library of the examples. At the inputs listed it gives what Python gives: the true
  SHA-256 of what the fingerprints of the workspaces above feed the digest, the true ISO
  form of the times 0 and 9, and the error for the first second of the year 10000.
  Elsewhere its digest and its times are placeholders. Its \<open>realpath\<close> is that of a file
  system without symbolic links, except for the two paths listed, which go through the
  links \<^verbatim>\<open>/ws/link -> /etc\<close> and \<^verbatim>\<open>/ws/out -> /ws/deep/inner\<close>.
\<close>

definition example_digests :: "(string \<times> string) list" where
  "example_digests =
     [(''core/system.md|Be kind.\<newline>'',
       ''61864a746a4c6e56afa444f808b9d2a49b01d2322ce8a01539e338107f6fb4a5''),
      (''a/b/c|1a/b/c|2'',
       ''38e3c6ef0ab71a2602b07bb1f6ce7d640f54bb83c55d2aa289242bf8a430e54b''),
      (''a/b/c|2a/b/c|1'',
       ''82a0225df84a81b58eafac011927e679ba4d12f320798bef03e14ca92e6ef06c''),
      (''core/a.md|Acore/b.md|Bnotes.txt|n'',
       ''a9899e8fa89a04eb95485d44a2e5d493d53f4c69e958ce264e87a4b8e524dad8''),
      (''core/a.md|Zcore/b.md|Bnotes.txt|n'',
       ''43a801779747f3898ebbf369ee097074cdc6147fa52a9c25557d439bc6739c95''),
      ('''',
       ''e3b0c44298fc1c149afbf4c8996fb92427ae41e4649b934ca495991b7852b855'')]"

definition example_times :: "(int \<times> (error + string)) list" where
  "example_times =
     [(0, Inr ''1970-01-01T00:00:00+00:00''),
      (9, Inr ''1970-01-01T00:00:09+00:00''),
      (253402300800, Inl (ValueError ''year 10000 is out of range''))]"

definition example_links :: "(path \<times> path) list" where
  "example_links =
     [([''ws'', ''link'', ''passwd''], [''etc'', ''passwd'']),
      ([''ws'', ''out'', ''..'', ''..'', ''x''], [''ws'', ''x''])]"

definition example_lib :: lib where
  "example_lib =
     \<lparr>sha256_hexdigest = (\<lambda>s. case map_of example_digests s of Some h \<Rightarrow> h | None \<Rightarrow> []),
      utc_isoformat = (\<lambda>t. case map_of example_times t of Some r \<Rightarrow> r | None \<Rightarrow> Inr []),
      realpath = (\<lambda>fs p.
        if has_nul p then Inl (ValueError ''embedded null byte'')
        else (case map_of example_links p of
                Some q \<Rightarrow> Inr q
              | None \<Rightarrow> Inr (lexical_resolve p)))\<rparr>"

section \<open>Properties\<close>

subsection \<open>Path safety\<close>

lemma set_parents: "set (parents p) = {q. strict_prefix q p}"
proof (intro set_eqI iffI)
  fix q assume "q \<in> set (parents p)"
  then obtain n where n: "n < length p" "q = take n p"
    by (auto simp: parents_def)
  then have "prefix q p" "length q < length p"
    by (simp_all add: take_is_prefix)
  then show "q \<in> {q. strict_prefix q p}"
    by (auto simp: strict_prefix_def)
next
  fix q assume "q \<in> {q. strict_prefix q p}"
  then obtain zs where zs: "p = q @ zs" "zs \<noteq> []"
    by (auto simp: strict_prefix_def prefix_def)
  then have "q = take (length q) p" "length q < length p"
    by auto
  then show "q \<in> set (parents p)"
    unfolding parents_def by (metis (no_types, lifting) atLeastLessThan_iff image_eqI set_map set_rev set_upt zero_le)
qed

lemma ancestor_or_self: "(x \<notin> set (parents r) \<and> r \<noteq> x) = (\<not> prefix x r)"
  by (auto simp: set_parents strict_prefix_def)

lemma fold_resolve_plain:
  "''..'' \<notin> set xs \<Longrightarrow> fold resolve_step xs acc = acc @ xs"
  by (induction xs arbitrary: acc) (auto simp: resolve_step_def)

lemma lexical_resolve_append_plain:
  "''..'' \<notin> set xs \<Longrightarrow> lexical_resolve (p @ xs) = lexical_resolve p @ xs"
  by (simp add: lexical_resolve_def fold_resolve_plain)

lemma lstrip_slash_not_absolute: "\<not> startswith (lstrip_chars ''/'' s) ''/''"
proof -
  have eq: "lstrip_chars ''/'' s = dropWhile (\<lambda>c. c = CHR ''/'') s"
    by (simp add: lstrip_chars_def)
  show ?thesis
  proof (cases "dropWhile (\<lambda>c. c = CHR ''/'') s")
    case Nil
    show ?thesis unfolding eq Nil startswith_def by simp
  next
    case (Cons a as)
    then have "a \<noteq> CHR ''/''"
      using hd_dropWhile [of "\<lambda>c. c = CHR ''/''" s] by simp
    then show ?thesis unfolding eq Cons startswith_def by simp
  qed
qed

lemma joinpath_lstrip:
  "joinpath root (lstrip_chars ''/'' s) = root @ parse_parts (lstrip_chars ''/'' s)"
  by (simp add: joinpath_def lstrip_slash_not_absolute)

lemma resolve_safe_run:
  "resolve_safe L root p fs =
     (case realpath L fs (candidate root p) of
        Inl e \<Rightarrow> Inl e
      | Inr canon \<Rightarrow>
         (case realpath L fs root of
            Inl e \<Rightarrow> Inl e
          | Inr croot \<Rightarrow>
              if prefix croot canon then Inr canon
              else Inl (ValueError ''Path traversal blocked'')),
      fs)"
  by (simp add: resolve_safe_def candidate_def ancestor_or_self split: sum.splits)

text \<open>
  Claim C1. The canonical result is what \<^verbatim>\<open>Path.resolve()\<close> returns for the candidate:
  the root joined with the relative path, leading slashes stripped, so that the relative
  path never replaces the root. Whatever the library follows on the way (\<^verbatim>\<open>..\<close>
  segments, symbolic links): if the canonical result is not the canonical root or a
  descendant of it, \<^verbatim>\<open>resolve_safe\<close> raises \<^verbatim>\<open>ValueError("Path traversal blocked")\<close>, the
  code's path-traversal error; if it is the root or a descendant, \<^verbatim>\<open>resolve_safe\<close>
  returns it. If the library raises (a NUL character, a loop of links), for the candidate
  or for the root, there is no canonical result and the error is raised on. Where the
  library resolves lexically (no component is a symbolic link), only \<^verbatim>\<open>..\<close> segments
  can make a path escape: a relative path without them resolves to the canonical root
  followed by its segments.
\<close>

theorem resolve_safe_traversal:
  "(realpath L fs (candidate root p) = Inr canon \<and> realpath L fs root = Inr croot \<longrightarrow>
      (\<not> prefix croot canon \<longrightarrow>
         resolve_safe L root p fs = (Inl (ValueError ''Path traversal blocked''), fs))
      \<and> (prefix croot canon \<longrightarrow> resolve_safe L root p fs = (Inr canon, fs)))
   \<and> (realpath L fs (candidate root p) = Inl e \<longrightarrow> resolve_safe L root p fs = (Inl e, fs))
   \<and> (realpath L fs (candidate root p) = Inr canon \<and> realpath L fs root = Inl e \<longrightarrow>
        resolve_safe L root p fs = (Inl e, fs))
   \<and> candidate root p = root @ parse_parts (lstrip_chars ''/'' p)
   \<and> (realpath L fs (candidate root p) = Inr (lexical_resolve (candidate root p))
        \<and> realpath L fs root = Inr (lexical_resolve root)
        \<and> ''..'' \<notin> set (parse_parts (lstrip_chars ''/'' p)) \<longrightarrow>
        resolve_safe L root p fs
          = (Inr (lexical_resolve root @ parse_parts (lstrip_chars ''/'' p)), fs))"
proof (intro conjI impI)
  assume "realpath L fs (candidate root p) = Inr canon \<and> realpath L fs root = Inr croot"
    and "\<not> prefix croot canon"
  then show "resolve_safe L root p fs = (Inl (ValueError ''Path traversal blocked''), fs)"
    by (simp add: resolve_safe_run)
next
  assume "realpath L fs (candidate root p) = Inr canon \<and> realpath L fs root = Inr croot"
    and "prefix croot canon"
  then show "resolve_safe L root p fs = (Inr canon, fs)"
    by (simp add: resolve_safe_run)
next
  assume "realpath L fs (candidate root p) = Inl e"
  then show "resolve_safe L root p fs = (Inl e, fs)"
    by (simp add: resolve_safe_run)
next
  assume "realpath L fs (candidate root p) = Inr canon \<and> realpath L fs root = Inl e"
  then show "resolve_safe L root p fs = (Inl e, fs)"
    by (simp add: resolve_safe_run)
next
  show "candidate root p = root @ parse_parts (lstrip_chars ''/'' p)"
    by (simp add: candidate_def joinpath_lstrip)
next
  assume a: "realpath L fs (candidate root p) = Inr (lexical_resolve (candidate root p))
        \<and> realpath L fs root = Inr (lexical_resolve root)
        \<and> ''..'' \<notin> set (parse_parts (lstrip_chars ''/'' p))"
  then have "lexical_resolve (candidate root p)
      = lexical_resolve root @ parse_parts (lstrip_chars ''/'' p)"
    by (simp add: candidate_def joinpath_lstrip lexical_resolve_append_plain)
  with a show "resolve_safe L root p fs
      = (Inr (lexical_resolve root @ parse_parts (lstrip_chars ''/'' p)), fs)"
    by (simp add: resolve_safe_run)
qed

lemma example_candidates:
  "candidate sample_root ''../../etc/passwd'' = [''ws'', ''..'', ''..'', ''etc'', ''passwd'']"
  "candidate sample_root ''core/../agents/a.md'' = [''ws'', ''core'', ''..'', ''agents'', ''a.md'']"
  "candidate sample_root ''/core/system.md'' = [''ws'', ''core'', ''system.md'']"
  "candidate sample_root [CHR ''c'', CHR ''o'', CHR ''r'', CHR ''e'', CHR ''/'', CHR 0x00, CHR ''x''] = [''ws'', ''core'', [CHR 0x00, CHR ''x'']]"
  "candidate sample_root ''link/passwd'' = [''ws'', ''link'', ''passwd'']"
  "candidate sample_root ''out/../../x'' = [''ws'', ''out'', ''..'', ''..'', ''x'']"
  by (simp_all add: candidate_def sample_root_def joinpath_def startswith_def lstrip_chars_def
      parse_parts_def)

lemma example_realpath:
  "realpath example_lib fs [''ws''] = Inr [''ws'']"
  "realpath example_lib fs [''ws'', ''..'', ''..'', ''etc'', ''passwd''] = Inr [''etc'', ''passwd'']"
  "realpath example_lib fs [''ws'', ''core'', ''..'', ''agents'', ''a.md'']
     = Inr [''ws'', ''agents'', ''a.md'']"
  "realpath example_lib fs [''ws'', ''core'', ''system.md''] = Inr [''ws'', ''core'', ''system.md'']"
  "realpath example_lib fs [''ws'', ''core'', [CHR 0x00, CHR ''x'']]
     = Inl (ValueError ''embedded null byte'')"
  "realpath example_lib fs [''ws'', ''link'', ''passwd''] = Inr [''etc'', ''passwd'']"
  "realpath example_lib fs [''ws'', ''out'', ''..'', ''..'', ''x''] = Inr [''ws'', ''x'']"
  by (simp_all add: example_lib_def example_links_def has_nul_def lexical_resolve_def
      resolve_step_def)

theorem resolve_safe_traversal_witness:
  "\<forall>fs.
     resolve_safe example_lib sample_root ''../../etc/passwd'' fs
       = (Inl (ValueError ''Path traversal blocked''), fs)
     \<and> resolve_safe example_lib sample_root ''core/../agents/a.md'' fs
       = (Inr [''ws'', ''agents'', ''a.md''], fs)
     \<and> resolve_safe example_lib sample_root ''/core/system.md'' fs
       = (Inr [''ws'', ''core'', ''system.md''], fs)
     \<and> resolve_safe example_lib sample_root [CHR ''c'', CHR ''o'', CHR ''r'', CHR ''e'', CHR ''/'', CHR 0x00, CHR ''x''] fs
       = (Inl (ValueError ''embedded null byte''), fs)
     \<and> resolve_safe example_lib sample_root ''link/passwd'' fs
       = (Inl (ValueError ''Path traversal blocked''), fs)
     \<and> resolve_safe example_lib sample_root ''out/../../x'' fs
       = (Inr [''ws'', ''x''], fs)"
proof
  fix fs
  note r = example_realpath [of fs] example_candidates
  have 1: "resolve_safe example_lib sample_root ''../../etc/passwd'' fs
       = (Inl (ValueError ''Path traversal blocked''), fs)"
    using resolve_safe_traversal [where L = example_lib and fs = fs and root = sample_root
        and p = "''../../etc/passwd''" and canon = "[''etc'', ''passwd'']" and croot = "[''ws'']"]
    by (simp add: r) (simp add: sample_root_def r)
  have 2: "resolve_safe example_lib sample_root ''core/../agents/a.md'' fs
       = (Inr [''ws'', ''agents'', ''a.md''], fs)"
    using resolve_safe_traversal [where L = example_lib and fs = fs and root = sample_root
        and p = "''core/../agents/a.md''" and canon = "[''ws'', ''agents'', ''a.md'']"
        and croot = "[''ws'']"]
    by (simp add: r) (simp add: sample_root_def r)
  have 3: "resolve_safe example_lib sample_root ''/core/system.md'' fs
       = (Inr [''ws'', ''core'', ''system.md''], fs)"
    using resolve_safe_traversal [where L = example_lib and fs = fs and root = sample_root
        and p = "''/core/system.md''" and canon = "[''ws'', ''core'', ''system.md'']"
        and croot = "[''ws'']"]
    by (simp add: r) (simp add: sample_root_def r)
  have 4: "resolve_safe example_lib sample_root [CHR ''c'', CHR ''o'', CHR ''r'', CHR ''e'', CHR ''/'', CHR 0x00, CHR ''x''] fs
       = (Inl (ValueError ''embedded null byte''), fs)"
    using resolve_safe_traversal [where L = example_lib and fs = fs and root = sample_root
        and p = "[CHR ''c'', CHR ''o'', CHR ''r'', CHR ''e'', CHR ''/'', CHR 0x00, CHR ''x'']" and e = "ValueError ''embedded null byte''"]
    by (simp add: r)
  have 5: "resolve_safe example_lib sample_root ''link/passwd'' fs
       = (Inl (ValueError ''Path traversal blocked''), fs)"
    using resolve_safe_traversal [where L = example_lib and fs = fs and root = sample_root
        and p = "''link/passwd''" and canon = "[''etc'', ''passwd'']" and croot = "[''ws'']"]
    by (simp add: r) (simp add: sample_root_def r)
  have 6: "resolve_safe example_lib sample_root ''out/../../x'' fs
       = (Inr [''ws'', ''x''], fs)"
    using resolve_safe_traversal [where L = example_lib and fs = fs and root = sample_root
        and p = "''out/../../x''" and canon = "[''ws'', ''x'']" and croot = "[''ws'']"]
    by (simp add: r) (simp add: sample_root_def r)
  show "resolve_safe example_lib sample_root ''../../etc/passwd'' fs
       = (Inl (ValueError ''Path traversal blocked''), fs)
     \<and> resolve_safe example_lib sample_root ''core/../agents/a.md'' fs
       = (Inr [''ws'', ''agents'', ''a.md''], fs)
     \<and> resolve_safe example_lib sample_root ''/core/system.md'' fs
       = (Inr [''ws'', ''core'', ''system.md''], fs)
     \<and> resolve_safe example_lib sample_root [CHR ''c'', CHR ''o'', CHR ''r'', CHR ''e'', CHR ''/'', CHR 0x00, CHR ''x''] fs
       = (Inl (ValueError ''embedded null byte''), fs)
     \<and> resolve_safe example_lib sample_root ''link/passwd'' fs
       = (Inl (ValueError ''Path traversal blocked''), fs)
     \<and> resolve_safe example_lib sample_root ''out/../../x'' fs
       = (Inr [''ws'', ''x''], fs)"
    using 1 2 3 4 5 6 by simp
qed

subsection \<open>Prompt names\<close>

lemma replace_Nil: "old \<noteq> [] \<Longrightarrow> replace old new [] = []"
  by (simp add: replace.simps)

lemma replace_Cons_skip:
  "old \<noteq> [] \<Longrightarrow> \<not> prefix old (c # cs) \<Longrightarrow> replace old new (c # cs) = c # replace old new cs"
  by (subst replace.simps) simp

lemma replace_Cons_hit:
  "old \<noteq> [] \<Longrightarrow> prefix old (c # cs) \<Longrightarrow>
   replace old new (c # cs) = new @ replace old new (drop (length old) (c # cs))"
  by (subst replace.simps) simp

lemma replace_char: "replace [a] [b] s = map (\<lambda>c. if c = a then b else c) s"
proof (induction s)
  case Nil
  show ?case by (simp add: replace_Nil)
next
  case (Cons c s)
  show ?case
  proof (cases "c = a")
    case True
    then show ?thesis using Cons.IH by (simp add: replace_Cons_hit)
  next
    case False
    then show ?thesis using Cons.IH by (simp add: replace_Cons_skip)
  qed
qed

lemma strip_md_suffix:
  "CHR ''.'' \<notin> set s \<Longrightarrow> \<not> occurs ''/md'' s \<Longrightarrow>
   replace ''.md'' '''' (dots s @ ''.md'') = dots s"
proof (induction s)
  case Nil
  show ?case by (simp add: dots_def replace_Cons_hit replace_Nil)
next
  case (Cons c s)
  have ih: "replace ''.md'' '''' (dots s @ ''.md'') = dots s"
    using Cons by simp
  have miss: "\<not> prefix ''.md'' (dots (c # s) @ ''.md'')"
  proof (cases s)
    case Nil
    then show ?thesis by (simp add: dots_def)
  next
    case (Cons x t)
    note s = Cons
    show ?thesis
    proof (cases t)
      case Nil
      with s show ?thesis by (simp add: dots_def)
    next
      case (Cons y u)
      with s Cons.prems show ?thesis by (auto simp: dots_def split: if_splits)
    qed
  qed
  show ?case
    using miss ih replace_Cons_skip [of "''.md''" "dots (c # s) ! 0" "dots s @ ''.md''" "''''"]
    by (simp add: dots_def)
qed

lemma undo_dots:
  "CHR ''.'' \<notin> set s \<Longrightarrow> map (\<lambda>c. if c = CHR ''.'' then CHR ''/'' else c) (dots s) = s"
  by (induction s) (auto simp: dots_def)

text \<open>
  Claim C2, as amended. The claim as stated fails: \<^verbatim>\<open>core/v1.2.md\<close> has the prompt name
  \<^verbatim>\<open>core.v1.2\<close>, whose path is \<^verbatim>\<open>core/v1/2.md\<close> (see the counterexample
  below), since a name writes both \<^verbatim>\<open>/\<close> and \<^verbatim>\<open>.\<close>
  as \<^verbatim>\<open>.\<close>. What holds: for every relative path \<open>stem @ ''.md''\<close> under \<^verbatim>\<open>core/\<close> or
  \<^verbatim>\<open>agents/\<close> whose stem contains no \<^verbatim>\<open>.\<close> (and no \<^verbatim>\<open>/md\<close>, which
  \<^verbatim>\<open>replace(".md", "")\<close> would delete inside the name), the prompt name is the stem with
  \<^verbatim>\<open>/\<close> written as \<^verbatim>\<open>.\<close>, and the path of that name is the original path: on this
  domain the two mappings invert each other.
\<close>

theorem prompt_name_round_trip:
  assumes dom: "startswith stem ''core/'' \<or> startswith stem ''agents/''"
    and nodot: "CHR ''.'' \<notin> set stem"
    and nomd: "\<not> occurs ''/md'' stem"
  shows "prompt_name_for_path (stem @ ''.md'') = Some (replace ''/'' ''.'' stem)
       \<and> path_for_prompt_name (replace ''/'' ''.'' stem) = Some (stem @ ''.md'')"
proof -
  have d: "replace ''/'' ''.'' stem = dots stem"
    by (simp add: replace_char dots_def)
  have d2: "replace ''/'' ''.'' (stem @ ''.md'') = dots stem @ ''.md''"
    by (simp add: replace_char dots_def)
  have inv: "replace ''.'' ''/'' (dots stem) = stem"
    using undo_dots [OF nodot] by (simp add: replace_char)
  have pre: "startswith (stem @ ''.md'') ''core/'' \<or> startswith (stem @ ''.md'') ''agents/''"
    using dom by (auto simp: startswith_def prefix_def)
  have pre2: "startswith (dots stem) ''core.'' \<or> startswith (dots stem) ''agents.''"
    using dom by (auto simp: startswith_def prefix_def dots_def)
  have "prompt_name_for_path (stem @ ''.md'') = Some (dots stem)"
    using pre by (auto simp: prompt_name_for_path_def d2 strip_md_suffix [OF nodot nomd])
  moreover have "path_for_prompt_name (dots stem) = Some (stem @ ''.md'')"
    using pre2 by (auto simp: path_for_prompt_name_def inv)
  ultimately show ?thesis by (simp add: d)
qed

theorem prompt_name_round_trip_witness:
  "prompt_name_for_path ''core/system.md'' = Some ''core.system''
   \<and> path_for_prompt_name ''core.system'' = Some ''core/system.md''
   \<and> prompt_name_for_path ''agents/review/strict.md'' = Some ''agents.review.strict''
   \<and> path_for_prompt_name ''agents.review.strict'' = Some ''agents/review/strict.md''"
  using prompt_name_round_trip [of "''core/system''"]
    prompt_name_round_trip [of "''agents/review/strict''"]
  by (simp add: startswith_def replace_char)

theorem prompt_name_round_trip_counterexample:
  "startswith ''core/v1.2.md'' ''core/''
   \<and> prompt_name_for_path ''core/v1.2.md'' = Some ''core.v1.2''
   \<and> path_for_prompt_name ''core.v1.2'' = Some ''core/v1/2.md''
   \<and> ''core/v1/2.md'' \<noteq> ''core/v1.2.md''"
  by (simp add: prompt_name_for_path_def path_for_prompt_name_def startswith_def replace_char
      replace_Cons_skip replace_Cons_hit replace_Nil)

subsection \<open>The dispatcher only reads\<close>

named_theorems ro "computations that leave the disk as it was"

lemma ro_return [ro]: "read_only (io_return x)"
  by (simp add: read_only_def io_return_def)

lemma ro_raise [ro]: "read_only (io_raise e)"
  by (simp add: read_only_def io_raise_def)

lemma ro_lift [ro]: "read_only (io_lift r)"
  by (simp add: read_only_def io_lift_def)

lemma ro_bind [ro]:
  assumes "read_only m" and "\<And>x. read_only (f x)"
  shows "read_only (io_bind m f)"
  unfolding read_only_def
proof
  fix fs
  obtain r fs' where m: "m fs = (r, fs')"
    by (cases "m fs")
  have same: "fs' = fs"
    using assms(1) m by (auto simp: read_only_def dest: spec [of _ fs])
  show "snd (io_bind m f fs) = fs"
    using assms(2) by (cases r) (simp_all add: io_bind_def m same read_only_def)
qed

lemma ro_except [ro]:
  assumes "read_only m" and "\<And>e. read_only (h e)"
  shows "read_only (io_except m h)"
  unfolding read_only_def
proof
  fix fs
  obtain r fs' where m: "m fs = (r, fs')"
    by (cases "m fs")
  have same: "fs' = fs"
    using assms(1) m by (auto simp: read_only_def dest: spec [of _ fs])
  show "snd (io_except m h fs) = fs"
    using assms(2) by (cases r) (simp_all add: io_except_def m same read_only_def)
qed

lemma ro_if [ro]: "read_only a \<Longrightarrow> read_only b \<Longrightarrow> read_only (if c then a else b)"
  by simp

lemma ro_os_stat [ro]: "read_only (os_stat p)"
  by (simp add: read_only_def os_stat_def)

lemma ro_ignoring [ro]: "read_only m \<Longrightarrow> read_only (ignoring m)"
  unfolding ignoring_def by (intro ro) (auto intro!: ro split: error.splits)

lemma ro_prims [ro]:
  "read_only (path_exists p)" "read_only (is_file p)" "read_only (is_dir p)"
  "read_only (stat_mtime p)"
  unfolding path_exists_def is_file_def is_dir_def stat_mtime_def by (intro ro)+

lemma ro_read_bytes [ro]: "read_only (read_bytes p)"
  by (simp add: read_only_def read_bytes_def)

lemma ro_rglob [ro]: "read_only (rglob p)"
  unfolding rglob_def by (intro ro) (simp add: read_only_def)

lemma ro_resolve_safe [ro]: "read_only (resolve_safe L root rel_path)"
  by (simp add: read_only_def resolve_safe_def)

lemma ro_read_text [ro]: "read_only (read_text p)"
  unfolding read_text_def by (intro ro)

lemma ro_keep_files [ro]: "read_only (keep_files ps)"
  by (induction ps) (auto intro!: ro)

lemma ro_list_files [ro]: "read_only (list_files root)"
  unfolding list_files_def by (intro ro)

lemma ro_fingerprint_loop [ro]: "read_only (fingerprint_loop root ps sha latest)"
  by (induction ps arbitrary: sha latest) (auto intro!: ro)

lemma ro_rules_fingerprint [ro]: "read_only (rules_fingerprint L root)"
  unfolding rules_fingerprint_def by (intro ro) (auto intro!: ro split: option.splits)

lemma ro_read_optional [ro]: "read_only (read_optional L root rel_path)"
  unfolding read_optional_def by (intro ro)

lemma ro_build_parts [ro]: "read_only (build_parts L root secs parts)"
  by (induction secs arbitrary: parts) (auto intro!: ro)

lemma ro_build_instructions [ro]: "read_only (build_instructions L root)"
  unfolding build_instructions_def by (intro ro)

lemma ro_rules_header [ro]: "read_only (rules_header L root)"
  unfolding rules_header_def Let_def by (intro ro)

lemma ro_initialize [ro]: "read_only (initialize L root params)"
  unfolding initialize_def Let_def by (intro ro)

lemma ro_tools_list [ro]: "read_only tools_list"
  unfolding tools_list_def by (intro ro)

lemma ro_tools_call [ro]: "read_only (tools_call L root params)"
  unfolding tools_call_def Let_def by (intro ro)

lemma ro_prompts_list [ro]: "read_only (prompts_list root)"
  unfolding prompts_list_def by (intro ro)

lemma ro_prompts_get [ro]: "read_only (prompts_get L root params)"
  unfolding prompts_get_def by (intro ro) (auto intro!: ro split: json.splits option.splits)

lemma ro_resources_templates_list [ro]: "read_only resources_templates_list"
  unfolding resources_templates_list_def by (intro ro)

lemma ro_resources_list [ro]: "read_only (resources_list root)"
  unfolding resources_list_def by (intro ro)

lemma ro_resources_read [ro]: "read_only (resources_read L root params)"
  unfolding resources_read_def by (intro ro) (auto intro!: ro split: json.splits)

lemma ro_empty_result [ro]: "read_only empty_result"
  unfolding empty_result_def by (intro ro)

lemma ro_handle: "read_only (handle L root payload)"
  unfolding handle_def Let_def by (intro ro)

text \<open>
  Claim C8. Whatever the request (any method, any parameters, well-formed or not) and
  whether \<^verbatim>\<open>handle\<close> returns a result or raises, the disk after the call is the disk
  before it: every handler is built from reading operations only.
\<close>

theorem handle_leaves_disk: "snd (handle L root payload fs) = fs"
  using ro_handle [of L root payload] by (simp add: read_only_def)

subsection \<open>What the reading operations return\<close>

lemma io_bind_run:
  "io_bind m f fs = (case m fs of (Inl e, fs') \<Rightarrow> (Inl e, fs') | (Inr x, fs') \<Rightarrow> f x fs')"
  by (simp add: io_bind_def)

lemma io_except_run:
  "io_except m h fs = (case m fs of (Inl e, fs') \<Rightarrow> h e fs' | (Inr x, fs') \<Rightarrow> (Inr x, fs'))"
  by (simp add: io_except_def)

lemma run_path_exists:
  "path_exists p fs =
     (if has_nul p then Inr False
      else
        (case lookup fs p of
           None \<Rightarrow> Inr False
         | Some (Refused r) \<Rightarrow>
             if ignore_error (errno_of r) then Inr False else Inl (OSError (errno_of r))
         | Some (Dir l w) \<Rightarrow> Inr True
         | Some (File r w c m) \<Rightarrow> Inr True),
      fs)"
  by (simp add: path_exists_def ignoring_def io_except_run io_bind_run os_stat_def io_return_def
      io_raise_def ignore_error_def split: option.splits node.splits)

lemma run_is_file:
  "is_file p fs =
     (if has_nul p then Inr False
      else
        (case lookup fs p of
           None \<Rightarrow> Inr False
         | Some (Refused r) \<Rightarrow>
             if ignore_error (errno_of r) then Inr False else Inl (OSError (errno_of r))
         | Some (Dir l w) \<Rightarrow> Inr False
         | Some (File r w c m) \<Rightarrow> Inr True),
      fs)"
  by (simp add: is_file_def ignoring_def io_except_run io_bind_run os_stat_def io_return_def
      io_raise_def ignore_error_def split: option.splits node.splits)

lemma run_is_dir:
  "is_dir p fs =
     (if has_nul p then Inr False
      else
        (case lookup fs p of
           None \<Rightarrow> Inr False
         | Some (Refused r) \<Rightarrow>
             if ignore_error (errno_of r) then Inr False else Inl (OSError (errno_of r))
         | Some (Dir l w) \<Rightarrow> Inr True
         | Some (File r w c m) \<Rightarrow> Inr False),
      fs)"
  by (simp add: is_dir_def ignoring_def io_except_run io_bind_run os_stat_def io_return_def
      io_raise_def ignore_error_def split: option.splits node.splits)

lemma is_file_free: "\<not> blocked fs p \<Longrightarrow> is_file p fs = (Inr (regular fs p), fs)"
  by (auto simp: run_is_file blocked_def regular_def split: option.splits node.splits)

lemma is_file_blocked: "blocked fs p \<Longrightarrow> \<exists>e. is_file p fs = (Inl e, fs)"
  by (auto simp: run_is_file blocked_def split: option.splits node.splits)

lemma is_dir_free: "\<not> blocked fs p \<Longrightarrow> is_dir p fs = (Inr (directory fs p), fs)"
  by (auto simp: run_is_dir blocked_def directory_def split: option.splits node.splits)

lemma is_dir_blocked: "blocked fs p \<Longrightarrow> \<exists>e. is_dir p fs = (Inl e, fs)"
  by (auto simp: run_is_dir blocked_def split: option.splits node.splits)

lemma blocked_not_directory: "blocked fs p \<Longrightarrow> \<not> directory fs p"
  by (auto simp: blocked_def directory_def split: option.splits node.splits)

lemma keep_files_free:
  "\<forall>p \<in> set ps. \<not> blocked fs p \<Longrightarrow> keep_files ps fs = (Inr (filter (regular fs) ps), fs)"
  by (induction ps) (simp_all add: io_bind_run io_return_def is_file_free)

lemma keep_files_blocked:
  "\<not> (\<forall>p \<in> set ps. \<not> blocked fs p) \<Longrightarrow> \<exists>e. keep_files ps fs = (Inl e, fs)"
proof (induction ps)
  case Nil
  then show ?case by simp
next
  case (Cons p ps)
  show ?case
  proof (cases "blocked fs p")
    case True
    from is_file_blocked [OF this] show ?thesis
      by (auto simp: io_bind_run)
  next
    case False
    then have "\<not> (\<forall>q \<in> set ps. \<not> blocked fs q)"
      using Cons.prems by simp
    from Cons.IH [OF this] show ?thesis
      by (auto simp: io_bind_run is_file_free [OF False])
  qed
qed

lemma run_rglob_free:
  "\<not> blocked fs root \<Longrightarrow> rglob root fs = (Inr (listing root fs), fs)"
  by (simp add: rglob_def io_bind_run is_dir_free io_return_def listing_def)

lemma run_rglob_blocked:
  "blocked fs root \<Longrightarrow> \<exists>e. rglob root fs = (Inl e, fs)"
  using is_dir_blocked [of fs root] by (auto simp: rglob_def io_bind_run)

lemma run_list_files:
  "listable root fs \<Longrightarrow> list_files root fs = (Inr (files_under root fs), fs)"
  by (simp add: listable_def list_files_def io_bind_run run_rglob_free keep_files_free
      files_under_def list_all_iff)

lemma list_files_fails:
  assumes "\<not> listable root fs"
  shows "\<exists>e. list_files root fs = (Inl e, fs)"
proof (cases "blocked fs root")
  case True
  from run_rglob_blocked [OF this] show ?thesis
    by (auto simp: list_files_def io_bind_run)
next
  case False
  then have "\<not> (\<forall>p \<in> set (listing root fs). \<not> blocked fs p)"
    using assms by (simp add: listable_def list_all_iff)
  from keep_files_blocked [OF this] show ?thesis
    by (auto simp: list_files_def io_bind_run run_rglob_free [OF False])
qed

lemma list_files_found:
  assumes "fst (list_files root fs) = Inr found"
  shows "found = files_under root fs" and "listable root fs"
proof -
  show l: "listable root fs"
  proof (rule ccontr)
    assume "\<not> listable root fs"
    from list_files_fails [OF this] obtain e where "list_files root fs = (Inl e, fs)" ..
    with assms show False by simp
  qed
  show "found = files_under root fs"
    using assms by (simp add: run_list_files [OF l])
qed

lemma list_files_snd: "snd (list_files root fs) = fs"
  using list_files_fails [of root fs] run_list_files [of root fs] by (cases "listable root fs") auto

lemma run_read_bytes:
  "readable fs p \<Longrightarrow> read_bytes p fs = (Inr (bytes_at fs p), fs)"
  by (auto simp: read_bytes_def readable_def bytes_at_def split: option.splits node.splits)

lemma read_bytes_fails:
  "\<not> readable fs p \<Longrightarrow> \<exists>e. read_bytes p fs = (Inl e, fs)"
  by (auto simp: read_bytes_def readable_def split: option.splits node.splits)

lemma run_stat_mtime:
  "regular fs p \<Longrightarrow> stat_mtime p fs = (Inr (mtime_at fs p), fs)"
  by (auto simp: stat_mtime_def io_bind_run os_stat_def io_return_def regular_def mtime_at_def
      split: option.splits node.splits)

lemma readable_regular: "readable fs p \<Longrightarrow> regular fs p"
  by (auto simp: readable_def regular_def split: option.splits node.splits)

lemma run_read_text:
  "read_text p fs =
     (if has_nul p then Inl (ValueError ''embedded null byte'')
      else
        (case lookup fs p of
           None \<Rightarrow> Inl (OSError ENOENT)
         | Some (Refused r) \<Rightarrow> Inl (OSError (errno_of r))
         | Some (Dir l w) \<Rightarrow> Inl (OSError EISDIR)
         | Some (File r w c m) \<Rightarrow>
             if \<not> r then Inl (OSError EACCES)
             else if \<not> utf8_valid c then Inl UnicodeDecodeError
             else Inr (universal_newlines c)),
      fs)"
  by (simp add: read_text_def io_bind_run read_bytes_def io_return_def io_raise_def
      split: option.splits node.splits)

lemma run_fingerprint_loop:
  "\<forall>p \<in> set ps. feedable root fs p \<Longrightarrow>
   fingerprint_loop root ps sha latest fs =
     (Inr (sha @ fed root fs ps, foldl later latest (map (mtime_at fs) ps)), fs)"
proof (induction ps arbitrary: sha latest)
  case Nil
  show ?case by (simp add: io_return_def fed_def)
next
  case (Cons p ps)
  have r: "readable fs p" and v: "utf8_valid (relative root p)"
    and rest: "\<forall>q \<in> set ps. feedable root fs q"
    using Cons.prems by (simp_all add: feedable_def)
  show ?case
    using Cons.IH [OF rest] v
    by (simp add: io_bind_run io_lift_def encode_utf8_def run_read_bytes [OF r]
        run_stat_mtime [OF readable_regular [OF r]] fed_def later_def)
qed

lemma fingerprint_loop_fails:
  "\<not> (\<forall>p \<in> set ps. feedable root fs p) \<Longrightarrow>
   \<exists>e. fingerprint_loop root ps sha latest fs = (Inl e, fs)"
proof (induction ps arbitrary: sha latest)
  case Nil
  then show ?case by simp
next
  case (Cons p ps)
  show ?case
  proof (cases "feedable root fs p")
    case True
    then have r: "readable fs p" and v: "utf8_valid (relative root p)"
      by (simp_all add: feedable_def)
    have "\<not> (\<forall>q \<in> set ps. feedable root fs q)"
      using Cons.prems True by simp
    from Cons.IH [OF this] show ?thesis
      using v by (simp add: io_bind_run io_lift_def encode_utf8_def run_read_bytes [OF r]
          run_stat_mtime [OF readable_regular [OF r]])
  next
    case False
    show ?thesis
    proof (cases "utf8_valid (relative root p)")
      case True
      then have "\<not> readable fs p"
        using False by (simp add: feedable_def)
      from read_bytes_fails [OF this] show ?thesis
        using True by (auto simp: io_bind_run io_lift_def encode_utf8_def)
    next
      case False
      then show ?thesis
        by (simp add: io_bind_run io_lift_def encode_utf8_def)
    qed
  qed
qed

lemma foldl_later_None:
  "(foldl later latest ms = None) = (latest = None \<and> ms = [])"
  by (induction ms arbitrary: latest) (auto simp: later_def split: option.splits)

subsection \<open>The fingerprint\<close>

lemma set_sorted_files: "set (sorted_files root fs) = set (files_under root fs)"
  by (simp add: sorted_files_def)

lemma run_rules_fingerprint:
  assumes l: "listable root fs" and f: "\<forall>p \<in> set (files_under root fs). feedable root fs p"
  shows "rules_fingerprint L root fs =
    (case latest_mtime fs (sorted_files root fs) of
       None \<Rightarrow>
         Inr \<lparr>rulesHash = take 12 (sha256_hexdigest L (digest_input root fs)),
              rulesUpdatedAt = None\<rparr>
     | Some t \<Rightarrow>
         (case utc_isoformat L t of
            Inl e \<Rightarrow> Inl e
          | Inr stamp \<Rightarrow>
              Inr \<lparr>rulesHash = take 12 (sha256_hexdigest L (digest_input root fs)),
                   rulesUpdatedAt = Some stamp\<rparr>),
     fs)"
proof -
  have "\<forall>p \<in> set (sorted_files root fs). feedable root fs p"
    using f by (simp add: set_sorted_files)
  from run_fingerprint_loop [OF this, of "[]" None] show ?thesis
    by (simp add: rules_fingerprint_def io_bind_run run_list_files [OF l] io_return_def
        io_lift_def digest_input_def latest_mtime_def sorted_files_def
        split: option.splits sum.splits)
qed

lemma rules_fingerprint_fails:
  assumes "\<not> (listable root fs \<and> (\<forall>p \<in> set (files_under root fs). feedable root fs p))"
  shows "\<exists>e. rules_fingerprint L root fs = (Inl e, fs)"
proof (cases "listable root fs")
  case False
  from list_files_fails [OF this] show ?thesis
    by (auto simp: rules_fingerprint_def io_bind_run)
next
  case True
  then have "\<not> (\<forall>p \<in> set (sorted_files root fs). feedable root fs p)"
    using assms by (simp add: set_sorted_files)
  from fingerprint_loop_fails [OF this, of "[]" None] show ?thesis
    by (auto simp: rules_fingerprint_def io_bind_run run_list_files [OF True] sorted_files_def)
qed

lemma rules_fingerprint_needs:
  assumes "fst (rules_fingerprint L root fs) = Inr snap"
  shows "listable root fs \<and> (\<forall>p \<in> set (files_under root fs). feedable root fs p)"
proof (rule ccontr)
  assume "\<not> (listable root fs \<and> (\<forall>p \<in> set (files_under root fs). feedable root fs p))"
  from rules_fingerprint_fails [OF this, of L] obtain e
    where "rules_fingerprint L root fs = (Inl e, fs)" ..
  with assms show False by simp
qed

lemma latest_mtime_None: "(latest_mtime fs ps = None) = (ps = [])"
  by (simp add: latest_mtime_def foldl_later_None)

lemma sort_key_Nil_iff: "(sort_key f xs = []) = (xs = [])"
  by (metis length_0_conv length_sort)

lemma rules_fingerprint_returns:
  "(\<exists>snap. fst (rules_fingerprint L root fs) = Inr snap) =
     (listable root fs \<and> (\<forall>p \<in> set (files_under root fs). feedable root fs p)
      \<and> (\<forall>t. latest_mtime fs (sorted_files root fs) = Some t \<longrightarrow>
             (\<exists>stamp. utc_isoformat L t = Inr stamp)))"
proof (cases "listable root fs \<and> (\<forall>p \<in> set (files_under root fs). feedable root fs p)")
  case False
  from rules_fingerprint_fails [OF this, of L] show ?thesis
    using False by auto
next
  case True
  then have l: "listable root fs" and f: "\<forall>p \<in> set (files_under root fs). feedable root fs p"
    by simp_all
  show ?thesis
    using True
    by (cases "latest_mtime fs (sorted_files root fs)")
      (auto simp: run_rules_fingerprint [OF l f] split: sum.splits)
qed

lemma rules_fingerprint_hash:
  assumes "fst (rules_fingerprint L root fs) = Inr snap"
  shows "rulesHash snap = take 12 (sha256_hexdigest L (digest_input root fs))"
    and "(rulesUpdatedAt snap = None) = (files_under root fs = [])"
proof -
  have "listable root fs \<and> (\<forall>p \<in> set (files_under root fs). feedable root fs p)"
    using assms by (rule rules_fingerprint_needs)
  then have l: "listable root fs" and f: "\<forall>p \<in> set (files_under root fs). feedable root fs p"
    by simp_all
  have e: "(latest_mtime fs (sorted_files root fs) = None) = (files_under root fs = [])"
    by (simp add: latest_mtime_None sorted_files_def sort_key_Nil_iff)
  show "rulesHash snap = take 12 (sha256_hexdigest L (digest_input root fs))"
    using assms by (auto simp: run_rules_fingerprint [OF l f] split: option.splits sum.splits)
  show "(rulesUpdatedAt snap = None) = (files_under root fs = [])"
    using assms e
    by (cases "latest_mtime fs (sorted_files root fs)")
      (auto simp: run_rules_fingerprint [OF l f] split: sum.splits)
qed

lemma filter_same_key:
  "distinct (map f zs) \<Longrightarrow> k \<in> set zs \<Longrightarrow> filter (\<lambda>x. f k = f x) zs = [k]"
proof (induction zs)
  case Nil
  then show ?case by simp
next
  case (Cons z zs)
  show ?case
  proof (cases "k = z")
    case True
    have "filter (\<lambda>x. f z = f x) zs = []"
      using Cons.prems(1) by (auto simp: filter_empty_conv)
    with True show ?thesis by simp
  next
    case False
    then have "k \<in> set zs" using Cons.prems(2) by simp
    moreover have "f k \<noteq> f z" using Cons.prems(1) \<open>k \<in> set zs\<close> by (metis distinct.simps(2) image_eqI list.simps(9) set_map)
    ultimately show ?thesis using Cons by simp
  qed
qed

lemma sort_key_permutation:
  assumes perm: "mset ys = mset xs" and keys: "distinct (map f xs)"
  shows "sort_key f ys = sort_key f xs"
proof (rule properties_for_sort_key)
  show "mset (sort_key f xs) = mset ys"
    using perm by simp
  show "sorted (map f (sort_key f xs))"
    by simp
  fix k assume k: "k \<in> set (sort_key f xs)"
  have "mset (map f ys) = mset (map f xs)"
    using perm by (metis mset_map)
  then have dy: "distinct (map f ys)"
    using keys by (metis mset_eq_imp_distinct_iff)
  have "mset (map f (sort_key f xs)) = mset (map f xs)"
    by simp
  then have ds: "distinct (map f (sort_key f xs))"
    using keys by (metis mset_eq_imp_distinct_iff)
  have "k \<in> set ys"
    using k perm by (metis mset_eq_setD set_sort)
  then show "filter (\<lambda>x. f k = f x) (sort_key f xs) = filter (\<lambda>x. f k = f x) ys"
    using filter_same_key [OF ds k] filter_same_key [OF dy] by simp
qed

lemma same_lookup:
  assumes "distinct (map fst fs)" "distinct (map fst fs2)" "mset fs2 = mset fs"
  shows "lookup fs2 = lookup fs"
proof -
  have "set fs2 = set fs"
    using assms(3) by (metis mset_eq_setD)
  then have "map_of fs2 = map_of fs"
    using assms(1,2) by (simp add: map_of_inject_set)
  then show ?thesis
    by (simp add: lookup_def fun_eq_iff)
qed

lemma lookup_notions:
  assumes "lookup fs2 = lookup fs"
  shows "regular fs2 = regular fs" "directory fs2 = directory fs" "blocked fs2 = blocked fs"
    "readable fs2 = readable fs" "bytes_at fs2 = bytes_at fs" "mtime_at fs2 = mtime_at fs"
    "visible root fs2 = visible root fs" "feedable root fs2 = feedable root fs"
  using assms
  by (simp_all add: regular_def directory_def blocked_def readable_def bytes_at_def mtime_at_def
      visible_def listed_dir_def feedable_def fun_eq_iff)

lemma listing_permutation:
  assumes "distinct (map fst fs)" "distinct (map fst fs2)" "mset fs2 = mset fs"
  shows "mset (listing root fs2) = mset (listing root fs)"
proof -
  have "mset (map fst fs2) = mset (map fst fs)"
    using assms(3) by (metis mset_map)
  then show ?thesis
    using assms(1,2) lookup_notions [OF same_lookup [OF assms]]
    by (simp add: listing_def distinct_remdups_id)
qed

lemma files_under_permutation:
  assumes "distinct (map fst fs)" "distinct (map fst fs2)" "mset fs2 = mset fs"
  shows "mset (files_under root fs2) = mset (files_under root fs)"
  using listing_permutation [OF assms, of root] lookup_notions(1) [OF same_lookup [OF assms]]
  by (simp add: files_under_def)

lemma listable_permutation:
  assumes "distinct (map fst fs)" "distinct (map fst fs2)" "mset fs2 = mset fs"
  shows "listable root fs2 = listable root fs"
proof -
  have "set (listing root fs2) = set (listing root fs)"
    using listing_permutation [OF assms, of root] by (metis mset_eq_setD)
  then show ?thesis
    using lookup_notions(3) [OF same_lookup [OF assms]]
    by (simp add: listable_def list_all_iff)
qed

lemma fed_cong:
  "\<forall>q \<in> set xs. bytes_at fs' q = bytes_at fs q \<Longrightarrow> fed root fs' xs = fed root fs xs"
  by (induction xs) (simp_all add: fed_def)

lemma fingerprint_order_independent:
  assumes d: "distinct (map fst fs)" "distinct (map fst fs2)" "mset fs2 = mset fs"
    and keys: "distinct (map (\<lambda>p. code_points (relative root p)) (files_under root fs))"
    and ret: "fst (rules_fingerprint L root fs) = Inr snap"
  shows "fst (rules_fingerprint L root fs2) = Inr snap"
proof -
  note same = lookup_notions [OF same_lookup [OF d]]
  have "listable root fs \<and> (\<forall>p \<in> set (files_under root fs). feedable root fs p)"
    using ret by (rule rules_fingerprint_needs)
  then have l: "listable root fs" and f: "\<forall>p \<in> set (files_under root fs). feedable root fs p"
    by simp_all
  have l2: "listable root fs2"
    using l listable_permutation [OF d] by simp
  have "set (files_under root fs2) = set (files_under root fs)"
    using files_under_permutation [OF d, of root] by (metis mset_eq_setD)
  then have f2: "\<forall>p \<in> set (files_under root fs2). feedable root fs2 p"
    using f by (simp add: same)
  have s: "sorted_files root fs2 = sorted_files root fs"
    unfolding sorted_files_def
    using sort_key_permutation [OF files_under_permutation [OF d] keys] .
  have i: "digest_input root fs2 = digest_input root fs"
    by (simp add: digest_input_def s fed_def same)
  have t: "latest_mtime fs2 (sorted_files root fs2) = latest_mtime fs (sorted_files root fs)"
    by (simp add: latest_mtime_def s same)
  show ?thesis
    using ret unfolding run_rules_fingerprint [OF l f] run_rules_fingerprint [OF l2 f2] i t
    by simp
qed

lemma lookup_update:
  "lookup (AList.update p n fs) q = (if q = p then Some n else lookup fs q)"
  by (simp add: lookup_def update_conv')

lemma keys_update_existing:
  "lookup fs p \<noteq> None \<Longrightarrow> map fst (AList.update p n fs) = map fst fs"
  by (auto simp: lookup_def update_keys dest!: map_of_SomeD intro: rev_image_eqI)

lemma fed_append: "fed root fs (xs @ ys) = fed root fs xs @ fed root fs ys"
  by (simp add: fed_def)

lemma fed_Cons:
  "fed root fs (p # ps) = relative root p @ ''|'' @ bytes_at fs p @ fed root fs ps"
  by (simp add: fed_def)

lemma distinct_files_under: "distinct (files_under root fs)"
  by (simp add: files_under_def listing_def)

lemma digest_input_changes:
  assumes p: "p \<in> set (files_under root fs)"
    and f: "lookup fs p = Some (File r w c m)" and c': "c' \<noteq> c"
  shows "digest_input root (AList.update p (File r w c' m') fs) \<noteq> digest_input root fs"
    and "files_under root (AList.update p (File r w c' m') fs) = files_under root fs"
proof -
  define fs' where "fs' = AList.update p (File r w c' m') fs"
  have look: "lookup fs' q = (if q = p then Some (File r w c' m') else lookup fs q)" for q
    by (simp add: fs'_def lookup_update)
  have keys: "map fst fs' = map fst fs"
    using f by (simp add: fs'_def keys_update_existing)
  have regs: "regular fs' = regular fs"
    using f by (auto simp: regular_def look fun_eq_iff)
  have dirs: "directory fs' = directory fs"
    using f by (auto simp: directory_def look fun_eq_iff)
  have vis: "visible root fs' = visible root fs"
    using f by (auto simp: visible_def listed_dir_def look fun_eq_iff list_all_iff)
  show same: "files_under root (AList.update p (File r w c' m') fs) = files_under root fs"
    unfolding fs'_def [symmetric] by (simp add: files_under_def listing_def keys regs dirs vis)
  let ?S = "sorted_files root fs"
  have "p \<in> set ?S" using p by (simp add: set_sorted_files)
  from split_list [OF this] obtain xs ys where S: "?S = xs @ p # ys"
    by blast
  have "distinct ?S"
    using distinct_files_under [of root fs] by (simp add: sorted_files_def)
  then have out: "p \<notin> set xs" "p \<notin> set ys"
    by (simp_all add: S)
  have other: "bytes_at fs' q = bytes_at fs q" if "q \<noteq> p" for q
    using that by (simp add: bytes_at_def look)
  have at: "bytes_at fs' p = c'" "bytes_at fs p = c"
    using f by (simp_all add: bytes_at_def look)
  have x: "fed root fs' xs = fed root fs xs"
    using out(1) other by (intro fed_cong) metis
  have y: "fed root fs' ys = fed root fs ys"
    using out(2) other by (intro fed_cong) metis
  have new: "fed root fs' ?S = fed root fs xs @ relative root p @ ''|'' @ c' @ fed root fs ys"
    by (simp add: S fed_append fed_Cons x y at)
  have old: "fed root fs ?S = fed root fs xs @ relative root p @ ''|'' @ c @ fed root fs ys"
    by (simp add: S fed_append fed_Cons at)
  have "fed root fs' ?S \<noteq> fed root fs ?S"
    unfolding new old using c' by simp
  moreover have "sorted_files root fs' = sorted_files root fs"
    using same by (simp add: sorted_files_def fs'_def)
  ultimately show "digest_input root (AList.update p (File r w c' m') fs) \<noteq> digest_input root fs"
    unfolding fs'_def [symmetric] by (simp add: digest_input_def)
qed


lemma relative_eval:
  "relative root p =
     map (\<lambda>c. if c = CHR 0x5C then CHR ''/'' else c) (join ''/'' (drop (length root) p))"
  by (simp add: relative_def relative_to_def replace_char)

lemma code_points_ascii:
  "\<forall>c \<in> set s. byte_in 0x00 0x7F c \<Longrightarrow> code_points s = map of_char s"
  by (induction s) simp_all

lemmas disk_eval =
  listing_def files_under_def directory_def regular_def blocked_def readable_def visible_def
  listed_dir_def lookup_def has_nul_def strict_prefix_def listable_def feedable_def
  bytes_at_def mtime_at_def ignore_error_def

lemma sample_listing:
  "listing sample_root sample_disk =
     [[''ws'', ''core''], [''ws'', ''core'', ''b.md''], [''ws'', ''notes.txt''],
      [''ws'', ''core'', ''a.md'']]"
  "listing sample_root sample_disk_reordered =
     [[''ws'', ''core'', ''a.md''], [''ws'', ''core''], [''ws'', ''notes.txt''],
      [''ws'', ''core'', ''b.md'']]"
  "listing sample_root sample_disk_edited = listing sample_root sample_disk"
  by (simp_all add: disk_eval sample_root_def sample_disk_def sample_disk_reordered_def
      sample_disk_edited_def)

lemma sample_files:
  "files_under sample_root sample_disk =
     [[''ws'', ''core'', ''b.md''], [''ws'', ''notes.txt''], [''ws'', ''core'', ''a.md'']]"
  "files_under sample_root sample_disk_edited = files_under sample_root sample_disk"
  unfolding files_under_def sample_listing
  by (simp_all add: regular_def lookup_def has_nul_def sample_disk_def sample_disk_edited_def)

lemma sample_sorted:
  "sorted_files sample_root sample_disk =
     [[''ws'', ''core'', ''a.md''], [''ws'', ''core'', ''b.md''], [''ws'', ''notes.txt'']]"
  "sorted_files sample_root sample_disk_edited = sorted_files sample_root sample_disk"
  unfolding sorted_files_def sample_files
  by (simp_all add: relative_eval sample_root_def byte_in_def)

lemma sample_digest_input:
  "digest_input sample_root sample_disk = ''core/a.md|Acore/b.md|Bnotes.txt|n''"
  "digest_input sample_root sample_disk_edited = ''core/a.md|Zcore/b.md|Bnotes.txt|n''"
  unfolding digest_input_def sample_sorted
  by (simp_all add: fed_def relative_eval sample_root_def bytes_at_def lookup_def sample_disk_def
      sample_disk_edited_def)

lemma sample_latest:
  "latest_mtime sample_disk (sorted_files sample_root sample_disk) = Some 9"
  "latest_mtime sample_disk_edited (sorted_files sample_root sample_disk_edited) = Some 9"
  unfolding sample_sorted
  by (simp_all add: latest_mtime_def later_def mtime_at_def lookup_def sample_disk_def
      sample_disk_edited_def)

lemma sample_ok:
  "listable sample_root sample_disk"
  "\<forall>p \<in> set (files_under sample_root sample_disk). feedable sample_root sample_disk p"
  "listable sample_root sample_disk_edited"
  "\<forall>p \<in> set (files_under sample_root sample_disk_edited).
     feedable sample_root sample_disk_edited p"
  unfolding listable_def sample_listing sample_files
  by (simp_all add: blocked_def feedable_def readable_def lookup_def has_nul_def sample_disk_def
      sample_disk_edited_def sample_root_def relative_eval byte_in_def)

lemma example_lib_eval:
  "sha256_hexdigest example_lib ''core/a.md|Acore/b.md|Bnotes.txt|n''
     = ''a9899e8fa89a04eb95485d44a2e5d493d53f4c69e958ce264e87a4b8e524dad8''"
  "sha256_hexdigest example_lib ''core/a.md|Zcore/b.md|Bnotes.txt|n''
     = ''43a801779747f3898ebbf369ee097074cdc6147fa52a9c25557d439bc6739c95''"
  "sha256_hexdigest example_lib ''a/b/c|1a/b/c|2''
     = ''38e3c6ef0ab71a2602b07bb1f6ce7d640f54bb83c55d2aa289242bf8a430e54b''"
  "sha256_hexdigest example_lib ''a/b/c|2a/b/c|1''
     = ''82a0225df84a81b58eafac011927e679ba4d12f320798bef03e14ca92e6ef06c''"
  "sha256_hexdigest example_lib ''core/system.md|Be kind.\<newline>''
     = ''61864a746a4c6e56afa444f808b9d2a49b01d2322ce8a01539e338107f6fb4a5''"
  "utc_isoformat example_lib 0 = Inr ''1970-01-01T00:00:00+00:00''"
  "utc_isoformat example_lib 9 = Inr ''1970-01-01T00:00:09+00:00''"
  "utc_isoformat example_lib 253402300800 = Inl (ValueError ''year 10000 is out of range'')"
  by (simp_all add: example_lib_def example_digests_def example_times_def)

lemma sample_fingerprint:
  "rules_fingerprint example_lib sample_root sample_disk =
     (Inr \<lparr>rulesHash = ''a9899e8fa89a'', rulesUpdatedAt = Some ''1970-01-01T00:00:09+00:00''\<rparr>,
      sample_disk)"
  unfolding run_rules_fingerprint [OF sample_ok(1,2)] sample_latest sample_digest_input
  by (simp add: example_lib_eval)

lemma sample_edited_fingerprint:
  "rules_fingerprint example_lib sample_root sample_disk_edited =
     (Inr \<lparr>rulesHash = ''43a801779747'', rulesUpdatedAt = Some ''1970-01-01T00:00:09+00:00''\<rparr>,
      sample_disk_edited)"
  unfolding run_rules_fingerprint [OF sample_ok(3,4)] sample_latest sample_digest_input
  by (simp add: example_lib_eval)

lemma sample_edit:
  "AList.update [''ws'', ''core'', ''a.md''] (File True True ''Z'' 7) sample_disk = sample_disk_edited"
  by (simp add: sample_disk_def sample_disk_edited_def)


lemma twin_files:
  "files_under sample_root twin_disk =
     [[''ws'', ''a'' @ [CHR 0x5C] @ ''b'', ''c''], [''ws'', ''a'', ''b'' @ [CHR 0x5C] @ ''c'']]"
  "files_under sample_root twin_disk_reordered =
     [[''ws'', ''a'', ''b'' @ [CHR 0x5C] @ ''c''], [''ws'', ''a'' @ [CHR 0x5C] @ ''b'', ''c'']]"
  by (simp_all add: disk_eval sample_root_def twin_disk_def twin_disk_reordered_def)

lemma twin_sorted:
  "sorted_files sample_root twin_disk = files_under sample_root twin_disk"
  "sorted_files sample_root twin_disk_reordered = files_under sample_root twin_disk_reordered"
  unfolding sorted_files_def twin_files
  by (simp_all add: relative_eval sample_root_def byte_in_def)

lemma twin_digest_input:
  "digest_input sample_root twin_disk = ''a/b/c|1a/b/c|2''"
  "digest_input sample_root twin_disk_reordered = ''a/b/c|2a/b/c|1''"
  unfolding digest_input_def twin_sorted twin_files
  by (simp_all add: fed_def relative_eval sample_root_def bytes_at_def lookup_def twin_disk_def
      twin_disk_reordered_def)

lemma twin_latest:
  "latest_mtime twin_disk (sorted_files sample_root twin_disk) = Some 0"
  "latest_mtime twin_disk_reordered (sorted_files sample_root twin_disk_reordered) = Some 0"
  unfolding twin_sorted twin_files
  by (simp_all add: latest_mtime_def later_def mtime_at_def lookup_def twin_disk_def
      twin_disk_reordered_def)

lemma twin_ok:
  "listable sample_root twin_disk"
  "\<forall>p \<in> set (files_under sample_root twin_disk). feedable sample_root twin_disk p"
  "listable sample_root twin_disk_reordered"
  "\<forall>p \<in> set (files_under sample_root twin_disk_reordered).
     feedable sample_root twin_disk_reordered p"
  unfolding twin_files
  by (simp_all add: disk_eval twin_disk_def twin_disk_reordered_def sample_root_def relative_eval
      byte_in_def)


subsection \<open>The change notifier\<close>

lemma broadcast_loop_wire:
  "distinct cs \<Longrightarrow>
   snd (broadcast_loop payload cs N w) = (\<lambda>c. if c \<in> set cs then deliver payload (w c) else w c)"
proof (induction cs arbitrary: N w)
  case Nil
  show ?case by simp
next
  case (Cons c cs)
  have d: "distinct cs" and nc: "c \<notin> set cs"
    using Cons.prems by simp_all
  show ?case
  proof (cases "w c")
    case (Open received)
    then show ?thesis
      using nc by (auto simp: send_json_def Cons.IH [OF d] deliver_def fun_eq_iff)
  next
    case Broken
    then show ?thesis
      using nc by (auto simp: send_json_def Cons.IH [OF d] deliver_def fun_eq_iff)
  qed
qed

lemma broadcast_loop_clients:
  "distinct cs \<Longrightarrow>
   clients (fst (broadcast_loop payload cs N w))
     = filter (\<lambda>c. \<not> (c \<in> set cs \<and> w c = Broken)) (clients N)"
proof (induction cs arbitrary: N w)
  case Nil
  show ?case by simp
next
  case (Cons c cs)
  have d: "distinct cs" and nc: "c \<notin> set cs"
    using Cons.prems by simp_all
  show ?case
  proof (cases "w c")
    case (Open received)
    have "filter (\<lambda>x. \<not> (x \<in> set cs \<and> (w(c := Open (received @ [payload]))) x = Broken)) (clients N)
        = filter (\<lambda>x. \<not> ((x = c \<or> x \<in> set cs) \<and> w x = Broken)) (clients N)"
      using Open nc by (intro filter_cong) auto
    then show ?thesis
      using Open by (simp add: send_json_def Cons.IH [OF d])
  next
    case Broken
    have "filter (\<lambda>x. \<not> (x \<in> set cs \<and> w x = Broken)) (removeAll c (clients N))
        = filter (\<lambda>x. \<not> ((x = c \<or> x \<in> set cs) \<and> w x = Broken)) (clients N)"
      using Broken unfolding removeAll_filter_not_eq filter_filter by (intro filter_cong) auto
    then show ?thesis
      using Broken by (simp add: send_json_def Cons.IH [OF d] disconnect_def)
  qed
qed

lemma broadcast_eq:
  assumes "distinct (clients N)"
  shows "clients (fst (broadcast method N w)) = filter (\<lambda>c. w c \<noteq> Broken) (clients N)"
    and "snd (broadcast method N w)
      = (\<lambda>c. if c \<in> set (clients N) then deliver (notification method) (w c) else w c)"
proof -
  have "filter (\<lambda>c. \<not> (c \<in> set (clients N) \<and> w c = Broken)) (clients N)
      = filter (\<lambda>c. w c \<noteq> Broken) (clients N)"
    by (intro filter_cong) auto
  then show "clients (fst (broadcast method N w)) = filter (\<lambda>c. w c \<noteq> Broken) (clients N)"
    by (simp add: broadcast_def broadcast_loop_clients [OF assms])
  show "snd (broadcast method N w)
      = (\<lambda>c. if c \<in> set (clients N) then deliver (notification method) (w c) else w c)"
    by (simp add: broadcast_def broadcast_loop_wire [OF assms])
qed

lemma broadcast_list_changed_eq:
  assumes d: "distinct (clients N)"
  shows "clients (fst (broadcast_list_changed N w)) = filter (\<lambda>c. w c \<noteq> Broken) (clients N)"
    and "snd (broadcast_list_changed N w)
      = (\<lambda>c. if c \<in> set (clients N) then
              deliver (notification ''notifications/resources/list_changed'')
                (deliver (notification ''notifications/prompts/list_changed'') (w c))
            else w c)"
proof -
  let ?p = "''notifications/prompts/list_changed''"
  let ?r = "''notifications/resources/list_changed''"
  let ?N1 = "fst (broadcast ?p N w)"
  let ?w1 = "snd (broadcast ?p N w)"
  have c1: "clients ?N1 = filter (\<lambda>c. w c \<noteq> Broken) (clients N)"
    and w1: "?w1 = (\<lambda>c. if c \<in> set (clients N) then deliver (notification ?p) (w c) else w c)"
    using broadcast_eq [OF d] by simp_all
  have d1: "distinct (clients ?N1)"
    using d by (simp add: c1)
  have all: "broadcast_list_changed N w = broadcast ?r ?N1 ?w1"
    by (simp add: broadcast_list_changed_def broadcast_prompts_list_changed_def
        broadcast_resources_list_changed_def split_beta)
  have keep: "filter (\<lambda>c. ?w1 c \<noteq> Broken) (clients ?N1) = clients ?N1"
    unfolding c1 w1 by (auto simp: deliver_def filter_id_conv split: socket.splits)
  show "clients (fst (broadcast_list_changed N w)) = filter (\<lambda>c. w c \<noteq> Broken) (clients N)"
    using broadcast_eq(1) [OF d1, of ?r ?w1] keep c1 by (simp add: all)
  have "snd (broadcast ?r ?N1 ?w1)
      = (\<lambda>c. if c \<in> set (clients ?N1) then deliver (notification ?r) (?w1 c) else ?w1 c)"
    by (rule broadcast_eq(2) [OF d1])
  also have "\<dots> = (\<lambda>c. if c \<in> set (clients N) then
              deliver (notification ?r) (deliver (notification ?p) (w c)) else w c)"
    unfolding c1 w1 by (auto simp: fun_eq_iff deliver_def split: socket.splits)
  finally show "snd (broadcast_list_changed N w)
      = (\<lambda>c. if c \<in> set (clients N) then
              deliver (notification ?r) (deliver (notification ?p) (w c))
            else w c)"
    by (simp add: all)
qed

text \<open>
  Claim C9. The registered clients being a set (a list without repetition), after
  \<^verbatim>\<open>broadcast_list_changed\<close>: the clients still registered are those whose socket is
  not broken, in their order; every registered client with an open socket has received, after
  what it had received before, the JSON-RPC notification of method
  \<^verbatim>\<open>notifications/prompts/list_changed\<close> and then the one of method
  \<^verbatim>\<open>notifications/resources/list_changed\<close>, each with empty parameters, whichever other
  clients are broken; a broken socket and the socket of an unregistered client are as they
  were. The broadcast runs alone (no other coroutine touches the set of clients while it
  awaits a send).
\<close>

theorem broadcast_continues:
  assumes "distinct (clients N)"
  shows "clients (fst (broadcast_list_changed N w)) = filter (\<lambda>c. w c \<noteq> Broken) (clients N)
    \<and> (\<forall>c \<in> set (clients N). \<forall>received. w c = Open received \<longrightarrow>
          snd (broadcast_list_changed N w) c
            = Open (received @
                [JObj [(''jsonrpc'', JStr ''2.0''),
                       (''method'', JStr ''notifications/prompts/list_changed''),
                       (''params'', JObj [])],
                 JObj [(''jsonrpc'', JStr ''2.0''),
                       (''method'', JStr ''notifications/resources/list_changed''),
                       (''params'', JObj [])]]))
    \<and> (\<forall>c. w c = Broken \<or> c \<notin> set (clients N) \<longrightarrow>
          snd (broadcast_list_changed N w) c = w c)"
  using broadcast_list_changed_eq [OF assms, of w]
  by (auto simp: deliver_def notification_def)

theorem broadcast_continues_witness:
  "clients (fst (broadcast_list_changed sample_notifier sample_wire)) = [1, 3]
   \<and> snd (broadcast_list_changed sample_notifier sample_wire) 1
       = Open [JObj [(''jsonrpc'', JStr ''2.0''),
                     (''method'', JStr ''notifications/prompts/list_changed''),
                     (''params'', JObj [])],
               JObj [(''jsonrpc'', JStr ''2.0''),
                     (''method'', JStr ''notifications/resources/list_changed''),
                     (''params'', JObj [])]]
   \<and> snd (broadcast_list_changed sample_notifier sample_wire) 2 = Broken
   \<and> snd (broadcast_list_changed sample_notifier sample_wire) 3
       = Open [JStr ''earlier'',
               JObj [(''jsonrpc'', JStr ''2.0''),
                     (''method'', JStr ''notifications/prompts/list_changed''),
                     (''params'', JObj [])],
               JObj [(''jsonrpc'', JStr ''2.0''),
                     (''method'', JStr ''notifications/resources/list_changed''),
                     (''params'', JObj [])]]"
proof -
  have d: "distinct (clients sample_notifier)"
    by (simp add: sample_notifier_def)
  have w: "sample_wire (Suc 0) = Open []" "sample_wire 2 = Broken"
    "sample_wire 3 = Open [JStr ''earlier'']"
    by (simp_all add: sample_wire_def)
  have c: "clients sample_notifier = [1, 2, 3]"
    by (simp add: sample_notifier_def)
  from broadcast_continues [OF d, of sample_wire] show ?thesis
    by (simp add: c w)
qed

end
